theory Spec2Isabelle
  imports Complex_Main "HOL-Library.AList" "HOL-Library.Multiset"
begin

section \<open>Python values used by the scripts\<close>

text \<open>
  The exceptions the modelled code can raise. \<open>FileNotFoundError\<close> carries the message the
  source passes to it, \<open>KeyError\<close> the column labels that were looked up and are missing.
  \<open>TypeError\<close> and \<open>AttributeError\<close> are raised by an access to a frame that is \<open>None\<close>.
\<close>

datatype error =
  IndexError | ZeroDivisionError | FileNotFoundError string | KeyError "string list"
  | TypeError | AttributeError

subsection \<open>Strings\<close>

text \<open>
  A Python \<open>str\<close> is modelled as a \<open>string\<close> whose characters are the code points below
  256 (Latin-1), so that \<open>length\<close> counts characters as Python's slicing does.
  \<open>str_int\<close> is \<open>str()\<close> of an integer, as the f-strings of the source apply it to codes.
\<close>

definition digit_char :: "nat \<Rightarrow> char" where
  "digit_char d = ''0123456789'' ! d"

fun str_nat :: "nat \<Rightarrow> string" where
  "str_nat n = (if n < 10 then [digit_char n] else str_nat (n div 10) @ [digit_char (n mod 10)])"

declare str_nat.simps [simp del]

definition str_int :: "int \<Rightarrow> string" where
  "str_int i = (if i < 0 then CHR ''-'' # str_nat (nat (- i)) else str_nat (nat i))"

text \<open>\<open>sep.join(xs)\<close>.\<close>

fun join :: "string \<Rightarrow> string list \<Rightarrow> string" where
  "join sep [] = []"
| "join sep [x] = x"
| "join sep (x # y # ys) = x @ sep @ join sep (y # ys)"

text \<open>
  \<open>str.isalnum\<close> on one character, by code point: the ASCII digits and letters, and the
  Latin-1 letters and numeric characters that Python classifies as alphanumeric.
\<close>

definition isalnum :: "char \<Rightarrow> bool" where
  "isalnum c =
     (let n = (of_char c :: nat) in
        (48 \<le> n \<and> n \<le> 57) \<or> (65 \<le> n \<and> n \<le> 90) \<or> (97 \<le> n \<and> n \<le> 122) \<or>
        n \<in> set [170, 178, 179, 181, 185, 186, 188, 189, 190] \<or>
        (192 \<le> n \<and> n \<le> 214) \<or> (216 \<le> n \<and> n \<le> 246) \<or> (248 \<le> n \<and> n \<le> 255))"

text \<open>\<open>str.lower\<close>: upper-case ASCII and Latin-1 letters move up by 32 code points.\<close>

definition lower_char :: "char \<Rightarrow> char" where
  "lower_char c =
     (let n = (of_char c :: nat) in
        if (65 \<le> n \<and> n \<le> 90) \<or> (192 \<le> n \<and> n \<le> 214) \<or> (216 \<le> n \<and> n \<le> 222)
        then char_of (n + 32) else c)"

definition str_lower :: "string \<Rightarrow> string" where
  "str_lower s = map lower_char s"

subsection \<open>Positional access and division\<close>

text \<open>\<open>df.iloc[0]\<close> and \<open>df.iloc[-1]\<close> raise \<open>IndexError\<close> on a frame without rows.\<close>

definition iloc0 :: "'a list \<Rightarrow> error + 'a" where
  "iloc0 xs = (case xs of [] \<Rightarrow> Inl IndexError | x # _ \<Rightarrow> Inr x)"

definition iloc_last :: "'a list \<Rightarrow> error + 'a" where
  "iloc_last xs = (if xs = [] then Inl IndexError else Inr (last xs))"

text \<open>
  Prices are modelled as exact rationals: the decimal numbers of the DBF price field.
  Division by zero raises, as Python's \<open>/\<close> does.
\<close>

definition truediv :: "rat \<Rightarrow> rat \<Rightarrow> error + rat" where
  "truediv a b = (if b = 0 then Inl ZeroDivisionError else Inr (a / b))"

text \<open>\<open>Series.unique()\<close>: the distinct values in order of first appearance.\<close>

fun unique :: "'a list \<Rightarrow> 'a list" where
  "unique [] = []"
| "unique (x # xs) = x # unique (filter (\<lambda>y. y \<noteq> x) xs)"

section \<open>Tables\<close>

text \<open>
  Rows of the lookup tables, with the columns the scripts read. The column \<open>libelle\<close>
  exists in R_MENU, R_ACTIVITE and R_TB23; the last two are named \<open>libelle_activ\<close> and
  \<open>libelle_grille\<close> here, since field names are global.
\<close>

record menu_row =
  cod_menu :: int
  libelle :: string
  cod_pere :: "int option"

record activite_row =
  cod_activ :: int
  libelle_activ :: string

record grille_row =
  cod_grille :: int
  libelle_grille :: string

text \<open>
  A row of the relation after the three inner joins of \<open>merge_tables\<close> (steps 1 to 3), with
  the columns the later stages read. \<open>apdt_modif\<close> is the modification timestamp after
  \<open>pd.to_datetime(..., errors='coerce')\<close>: an integer that orders as the date does, or
  \<open>None\<close> for \<open>NaT\<close>.
\<close>

record joined_row =
  cod_acte :: string
  nom_court :: string
  nom_long :: string
  menu_cod :: int
  activ_cod :: int
  phase_cod :: int
  grille_cod :: int
  apdt_modif :: "int option"
  pu_base :: rat

text \<open>
  A row of \<open>df_merged\<close>: the inner-joined row and, for each of the three left joins, the
  matching right row, or \<open>None\<close> when every right-side column is null.
\<close>

record merged_row =
  base :: joined_row
  menu_part :: "menu_row option"
  activite_part :: "activite_row option"
  grille_part :: "grille_row option"

definition menu_libelle :: "merged_row \<Rightarrow> string option" where
  "menu_libelle r = map_option libelle (menu_part r)"

definition activite_libelle :: "merged_row \<Rightarrow> string option" where
  "activite_libelle r = map_option libelle_activ (activite_part r)"

definition grille_libelle :: "merged_row \<Rightarrow> string option" where
  "grille_libelle r = map_option libelle_grille (grille_part r)"

text \<open>The tables held by \<open>CCAMPriceEvolutionAnalyzer\<close>.\<close>

record analyzer =
  df_menu :: "menu_row list"
  df_activite :: "activite_row list"
  df_grille :: "grille_row list"
  df_merged :: "merged_row list"

text \<open>The filter criteria set by \<open>__init__\<close>.\<close>

definition grilles_filter :: "int list" where
  "grilles_filter = [3, 4, 5, 7, 17, 18]"

definition activites_filter :: "int list" where
  "activites_filter = [1, 2, 3, 4]"

definition phase_filter :: int where
  "phase_filter = 0"

section \<open>Join pipeline\<close>

text \<open>
  \<open>pd.merge(left, right, left_on, right_on, how='left')\<close>: the left rows in order, each
  paired with every right row of equal key in right order, or with \<open>None\<close> when no right
  row matches.
\<close>

definition merge_left :: "('l \<Rightarrow> 'k) \<Rightarrow> ('r \<Rightarrow> 'k) \<Rightarrow> 'l list \<Rightarrow> 'r list \<Rightarrow> ('l \<times> 'r option) list" where
  "merge_left left_on right_on left right =
     concat (map (\<lambda>l. case filter (\<lambda>r. right_on r = left_on l) right of
                         [] \<Rightarrow> [(l, None)]
                       | ms \<Rightarrow> map (\<lambda>r. (l, Some r)) ms) left)"

text \<open>
  Steps 4 to 6 of \<open>merge_tables\<close>, applied to the result \<open>df_temp\<close> of the inner joins: the
  left joins with R_MENU on \<open>menu_cod\<close>, with R_ACTIVITE on \<open>activ_cod\<close> and with R_TB23 on
  \<open>grille_cod\<close>.
\<close>

definition merge_tables :: "analyzer \<Rightarrow> joined_row list \<Rightarrow> analyzer" where
  "merge_tables self df_temp =
     (let t4 = merge_left menu_cod cod_menu df_temp (df_menu self);
          t5 = merge_left (\<lambda>l. activ_cod (fst l)) cod_activ t4 (df_activite self);
          t6 = merge_left (\<lambda>l. grille_cod (fst (fst l))) cod_grille t5 (df_grille self)
      in self\<lparr>df_merged :=
           map (\<lambda>(((j, m), a), g).
                  \<lparr>base = j, menu_part = m, activite_part = a, grille_part = g\<rparr>) t6\<rparr>)"

section \<open>Filter stage\<close>

definition apply_filters :: "analyzer \<Rightarrow> analyzer" where
  "apply_filters self =
     (let d1 = filter (\<lambda>r. grille_cod (base r) \<in> set grilles_filter) (df_merged self);
          d2 = filter (\<lambda>r. activ_cod (base r) \<in> set activites_filter) d1;
          d3 = filter (\<lambda>r. phase_cod (base r) = phase_filter) d2
      in self\<lparr>df_merged := d3\<rparr>)"

text \<open>The three tests on their own, to state that their order is immaterial.\<close>

definition filter_grilles :: "merged_row list \<Rightarrow> merged_row list" where
  "filter_grilles d = filter (\<lambda>r. grille_cod (base r) \<in> set grilles_filter) d"

definition filter_activites :: "merged_row list \<Rightarrow> merged_row list" where
  "filter_activites d = filter (\<lambda>r. activ_cod (base r) \<in> set activites_filter) d"

definition filter_phase :: "merged_row list \<Rightarrow> merged_row list" where
  "filter_phase d = filter (\<lambda>r. phase_cod (base r) = phase_filter) d"

section \<open>Menu hierarchy path\<close>

text \<open>
  The codes of R_MENU are integers. pandas holds an integer column in which a value is
  missing as \<open>float64\<close>, so a parent code read from a \<open>cod_pere\<close> column with a null is a
  float, and \<open>str\<close> of it ends in \<open>.0\<close>; read from a column without a null it is an integer.
  Codes are of magnitude below \<open>2^53\<close>, where \<open>float64\<close> holds every integer exactly and
  \<open>str\<close> prints its digits without an exponent. \<open>number\<close> is a value of the loop variable
  \<open>current\<close>: an integer, or a float whose value is an integer.
\<close>

datatype number = PyInt int | PyFloat int

fun value_of :: "number \<Rightarrow> int" where
  "value_of (PyInt i) = i"
| "value_of (PyFloat i) = i"

fun str_number :: "number \<Rightarrow> string" where
  "str_number (PyInt i) = str_int i"
| "str_number (PyFloat i) = str_int i @ ''.0''"

definition cod_pere_float :: "menu_row list \<Rightarrow> bool" where
  "cod_pere_float df = list_ex (\<lambda>r. cod_pere r = None) df"

definition column_value :: "menu_row list \<Rightarrow> int \<Rightarrow> number" where
  "column_value df i = (if cod_pere_float df then PyFloat i else PyInt i)"

text \<open>\<open>menu_row.iloc[0]['cod_pere']\<close>; \<open>None\<close> is the missing value.\<close>

definition read_cod_pere :: "menu_row list \<Rightarrow> menu_row \<Rightarrow> number option" where
  "read_cod_pere df r = map_option (column_value df) (cod_pere r)"

text \<open>
  The \<open>while\<close> loop of \<open>get_menu_hierarchy_path\<close>. \<open>current\<close> is \<open>None\<close> for a null parent,
  which ends the loop: as \<open>None\<close> by the loop test, and as \<open>NaN\<close> because no row has the
  code \<open>NaN\<close>. The loop need not terminate, so not returning is the value \<open>None\<close> of the
  result.
\<close>

partial_function (option) walk_menu ::
  "menu_row list \<Rightarrow> string list \<Rightarrow> number option \<Rightarrow> string list option" where
  "walk_menu df path current =
     (case current of
        None \<Rightarrow> Some path
      | Some c \<Rightarrow>
          if value_of c = 0 then Some path
          else (case filter (\<lambda>r. cod_menu r = value_of c) df of
                  [] \<Rightarrow> Some path
                | menu_row # _ \<Rightarrow>
                    walk_menu df ((str_number c @ ''_'' @ libelle menu_row) # path)
                      (read_cod_pere df menu_row)))"

text \<open>The function is called with an integer code, or with \<open>None\<close>.\<close>

definition get_menu_hierarchy_path :: "analyzer \<Rightarrow> int option \<Rightarrow> string option" where
  "get_menu_hierarchy_path self code =
     map_option (\<lambda>path. if path \<noteq> [] then join '' > '' path else ''SANS_MENU'')
       (walk_menu (df_menu self) [] (map_option PyInt code))"

text \<open>
  The parent chain of a code, as the specification words it: the rows met walking upward
  from the code, listed from the topmost ancestor down to the code itself. The chain
  ends at a null code, at code 0 and at a code without a row in the table.
\<close>

inductive menu_chain :: "menu_row list \<Rightarrow> int option \<Rightarrow> menu_row list \<Rightarrow> bool" where
  chain_null: "menu_chain df None []"
| chain_root: "menu_chain df (Some 0) []"
| chain_missing: "c \<noteq> 0 \<Longrightarrow> filter (\<lambda>r. cod_menu r = c) df = [] \<Longrightarrow> menu_chain df (Some c) []"
| chain_step: "c \<noteq> 0 \<Longrightarrow> filter (\<lambda>r. cod_menu r = c) df = m # ms \<Longrightarrow>
     menu_chain df (cod_pere m) rs \<Longrightarrow> menu_chain df (Some c) (rs @ [m])"

text \<open>
  The segment of the row the walk starts from, whose code is the integer passed to the
  function, and the segment of an ancestor, whose code was read from the column.
\<close>

definition segment :: "menu_row \<Rightarrow> string" where
  "segment m = str_int (cod_menu m) @ ''_'' @ libelle m"

definition ancestor_segment :: "menu_row list \<Rightarrow> menu_row \<Rightarrow> string" where
  "ancestor_segment df m = str_number (column_value df (cod_menu m)) @ ''_'' @ libelle m"

section \<open>Price evolution per menu\<close>

text \<open>
  One record of the result of \<open>analyze_price_evolution_for_menu\<close>: the dictionary appended to
  \<open>results\<close>. The keys \<open>cod_acte\<close>, \<open>nom_court\<close>, \<open>nom_long\<close>, \<open>activite_libelle\<close>, \<open>grille_cod\<close>
  and \<open>grille_libelle\<close> carry the prefix \<open>e_\<close>, since the columns of the same names are fields
  of the input rows.
\<close>

record evolution =
  e_cod_acte :: string
  e_nom_court :: string
  e_nom_long :: string
  activite :: int
  e_activite_libelle :: "string option"
  e_grille_cod :: int
  e_grille_libelle :: "string option"
  date_premiere_modif :: "int option"
  prix_initial :: rat
  date_derniere_modif :: "int option"
  prix_actuel :: rat
  evolution_euros :: rat
  evolution_pct :: rat
  nb_modifications :: nat

text \<open>
  \<open>df.sort_values('apdt_modif')\<close>: the rows with a timestamp in ascending order of it, rows
  of equal timestamp in their input order, followed by the rows whose timestamp is \<open>NaT\<close>
  (pandas sorts the non-null keys and appends the null ones).
\<close>

definition date_key :: "merged_row \<Rightarrow> int" where
  "date_key r = (case apdt_modif (base r) of Some t \<Rightarrow> t | None \<Rightarrow> 0)"

definition sort_values :: "merged_row list \<Rightarrow> merged_row list" where
  "sort_values df =
     sort_key date_key (filter (\<lambda>r. apdt_modif (base r) \<noteq> None) df)
     @ filter (\<lambda>r. apdt_modif (base r) = None) df"

text \<open>The order of \<open>sort_values\<close> on timestamps: ascending, \<open>NaT\<close> last.\<close>

definition date_before :: "int option \<Rightarrow> int option \<Rightarrow> bool" where
  "date_before x y =
     (case y of None \<Rightarrow> True | Some t \<Rightarrow> (case x of None \<Rightarrow> False | Some s \<Rightarrow> s \<le> t))"

text \<open>Sequencing of two steps of which the first may raise.\<close>

definition and_then :: "error + 'a \<Rightarrow> ('a \<Rightarrow> error + 'b) \<Rightarrow> error + 'b" where
  "and_then m f = (case m of Inl e \<Rightarrow> Inl e | Inr x \<Rightarrow> f x)"

text \<open>
  The expression of \<open>evolution_pct\<close>:
  \<open>((last - first) / first * 100) if first != 0 else 0\<close>.
\<close>

definition pct :: "rat \<Rightarrow> rat \<Rightarrow> error + rat" where
  "pct first_pu last_pu =
     (if first_pu \<noteq> 0
      then and_then (truediv (last_pu - first_pu) first_pu) (\<lambda>q. Inr (q * 100))
      else Inr 0)"

text \<open>
  The expression of \<open>grille_libelle\<close>: the label of the entity's first row when that row has
  the grid, else the label of the first row of the grid table with the grid, whose
  \<open>iloc[0]\<close> raises when the table has no such row.
\<close>

definition lookup_grille_libelle :: "analyzer \<Rightarrow> merged_row \<Rightarrow> int \<Rightarrow> error + string option" where
  "lookup_grille_libelle self acte_info grille =
     (if grille = grille_cod (base acte_info) then Inr (grille_libelle acte_info)
      else and_then (iloc0 (filter (\<lambda>g. cod_grille g = grille) (df_grille self)))
             (\<lambda>g. Inr (Some (libelle_grille g))))"

text \<open>
  The body of the inner loop for one entity and one grid: nothing is appended when the
  entity has no row of the grid, else one record is built from the first and the last
  row in timestamp order.
\<close>

definition analyze_acte_grille ::
  "analyzer \<Rightarrow> string \<Rightarrow> merged_row \<Rightarrow> merged_row list \<Rightarrow> int \<Rightarrow> error + evolution option" where
  "analyze_acte_grille self acte acte_info df_acte grille =
     (let df_acte_grille = filter (\<lambda>r. grille_cod (base r) = grille) df_acte in
      if df_acte_grille = [] then Inr None
      else
        let sorted_rows = sort_values df_acte_grille in
        and_then (iloc0 sorted_rows) (\<lambda>first_row.
        and_then (iloc_last sorted_rows) (\<lambda>last_row.
        and_then (lookup_grille_libelle self acte_info grille) (\<lambda>label.
        and_then (pct (pu_base (base first_row)) (pu_base (base last_row))) (\<lambda>p.
          Inr (Some \<lparr>e_cod_acte = acte,
                     e_nom_court = nom_court (base acte_info),
                     e_nom_long = nom_long (base acte_info),
                     activite = activ_cod (base acte_info),
                     e_activite_libelle = activite_libelle acte_info,
                     e_grille_cod = grille,
                     e_grille_libelle = label,
                     date_premiere_modif = apdt_modif (base first_row),
                     prix_initial = pu_base (base first_row),
                     date_derniere_modif = apdt_modif (base last_row),
                     prix_actuel = pu_base (base last_row),
                     evolution_euros = pu_base (base last_row) - pu_base (base first_row),
                     evolution_pct = p,
                     nb_modifications = length df_acte_grille\<rparr>))))))"

text \<open>\<open>for grille in self.grilles_filter\<close>, threading \<open>results\<close>.\<close>

fun loop_grilles ::
  "analyzer \<Rightarrow> string \<Rightarrow> merged_row \<Rightarrow> merged_row list \<Rightarrow> int list \<Rightarrow> evolution list
     \<Rightarrow> error + evolution list" where
  "loop_grilles self acte acte_info df_acte [] results = Inr results"
| "loop_grilles self acte acte_info df_acte (grille # grilles) results =
     and_then (analyze_acte_grille self acte acte_info df_acte grille)
       (\<lambda>result. loop_grilles self acte acte_info df_acte grilles
                    (case result of None \<Rightarrow> results | Some r \<Rightarrow> results @ [r]))"

text \<open>\<open>for acte in actes\<close>; \<open>acte_info\<close> is the first row of the entity's rows in the menu.\<close>

fun loop_actes ::
  "analyzer \<Rightarrow> merged_row list \<Rightarrow> string list \<Rightarrow> evolution list \<Rightarrow> error + evolution list" where
  "loop_actes self df_menu_rows [] results = Inr results"
| "loop_actes self df_menu_rows (acte # actes) results =
     (let df_acte = filter (\<lambda>r. cod_acte (base r) = acte) df_menu_rows in
      and_then (iloc0 df_acte) (\<lambda>acte_info.
      and_then (loop_grilles self acte acte_info df_acte grilles_filter results)
        (\<lambda>results'. loop_actes self df_menu_rows actes results')))"

text \<open>
  \<open>analyze_price_evolution_for_menu\<close> returns \<open>None\<close> for a menu without rows, else the
  frame of the records, in the order in which they were appended.
\<close>

definition analyze_price_evolution_for_menu ::
  "analyzer \<Rightarrow> int \<Rightarrow> error + evolution list option" where
  "analyze_price_evolution_for_menu self code =
     (let df_menu_rows = filter (\<lambda>r. menu_cod (base r) = code) (df_merged self) in
      if df_menu_rows = [] then Inr None
      else and_then
             (loop_actes self df_menu_rows
                (unique (map (\<lambda>r. cod_acte (base r)) df_menu_rows)) [])
             (\<lambda>results. Inr (Some results)))"

text \<open>
  Names for the row sets the function computes on its way, and for the record one step
  contributes, used to state its properties.
\<close>

definition record_of :: "error + evolution option \<Rightarrow> evolution list" where
  "record_of r = (case r of Inr (Some e) \<Rightarrow> [e] | _ \<Rightarrow> [])"

definition menu_rows :: "analyzer \<Rightarrow> int \<Rightarrow> merged_row list" where
  "menu_rows self code = filter (\<lambda>r. menu_cod (base r) = code) (df_merged self)"

definition acte_rows :: "analyzer \<Rightarrow> int \<Rightarrow> string \<Rightarrow> merged_row list" where
  "acte_rows self code a = filter (\<lambda>r. cod_acte (base r) = a) (menu_rows self code)"

definition acte_grille_rows :: "analyzer \<Rightarrow> int \<Rightarrow> string \<Rightarrow> int \<Rightarrow> merged_row list" where
  "acte_grille_rows self code a g = filter (\<lambda>r. grille_cod (base r) = g) (acte_rows self code a)"

definition step_of :: "analyzer \<Rightarrow> int \<Rightarrow> string \<Rightarrow> int \<Rightarrow> error + evolution option" where
  "step_of self code a g =
     analyze_acte_grille self a (hd (acte_rows self code a)) (acte_rows self code a) g"

subsection \<open>Example inputs of the price evolution\<close>

text \<open>
  A grid table with a label for each of the six grids, and rows of entity 100 in menu 1
  with a given grid, activity, price and date (in days since 1970-01-01: 18262 is
  2020-01-01 and 18993 is 2022-01-01), left-joined with that grid table.
\<close>

definition grille_table :: "grille_row list" where
  "grille_table =
     [\<lparr>cod_grille = 3, libelle_grille = ''G3''\<rparr>, \<lparr>cod_grille = 4, libelle_grille = ''G4''\<rparr>,
      \<lparr>cod_grille = 5, libelle_grille = ''G5''\<rparr>, \<lparr>cod_grille = 7, libelle_grille = ''G7''\<rparr>,
      \<lparr>cod_grille = 17, libelle_grille = ''G17''\<rparr>, \<lparr>cod_grille = 18, libelle_grille = ''G18''\<rparr>]"

definition entity_row :: "int \<Rightarrow> int \<Rightarrow> rat \<Rightarrow> int \<Rightarrow> merged_row" where
  "entity_row grille activ price date =
     \<lparr>base = \<lparr>cod_acte = ''100'', nom_court = ''X'', nom_long = ''X'', menu_cod = 1,
              activ_cod = activ, phase_cod = 0, grille_cod = grille, apdt_modif = Some date,
              pu_base = price\<rparr>,
      menu_part = None, activite_part = None,
      grille_part = find (\<lambda>g. cod_grille g = grille) grille_table\<rparr>"




text \<open>
  A series whose earliest price is 0, the later row first: the price 5 of 2022 comes
  before the price 0 of 2020 in the table.
\<close>

definition zero_price_analyzer :: analyzer where
  "zero_price_analyzer =
     \<lparr>df_menu = [], df_activite = [], df_grille = grille_table,
      df_merged = [entity_row 3 1 5 18993, entity_row 3 1 0 18262]\<rparr>"

text \<open>One entity whose rows span the activities 1 and 2 and the grids 3 and 4.\<close>

definition two_activity_analyzer :: analyzer where
  "two_activity_analyzer =
     \<lparr>df_menu = [], df_activite = [], df_grille = grille_table,
      df_merged = [entity_row 3 1 10 18262, entity_row 4 2 12 18993]\<rparr>"

section \<open>Example inputs\<close>

text \<open>
  The synthetic menu tree of the specification: ROOT, its child A and A's child B. The
  parent code of ROOT is 0, so no value of the column \<open>cod_pere\<close> is missing.
\<close>

definition synthetic_tree :: "menu_row list" where
  "synthetic_tree =
     [\<lparr>cod_menu = 0, libelle = ''ROOT'', cod_pere = Some 0\<rparr>,
      \<lparr>cod_menu = 1, libelle = ''A'', cod_pere = Some 0\<rparr>,
      \<lparr>cod_menu = 2, libelle = ''B'', cod_pere = Some 1\<rparr>]"

definition synthetic_analyzer :: analyzer where
  "synthetic_analyzer =
     \<lparr>df_menu = synthetic_tree, df_activite = [], df_grille = [], df_merged = []\<rparr>"

text \<open>The same tree with a null parent for ROOT.\<close>

definition null_root_tree :: "menu_row list" where
  "null_root_tree =
     [\<lparr>cod_menu = 0, libelle = ''ROOT'', cod_pere = None\<rparr>,
      \<lparr>cod_menu = 1, libelle = ''A'', cod_pere = Some 0\<rparr>,
      \<lparr>cod_menu = 2, libelle = ''B'', cod_pere = Some 1\<rparr>]"

definition null_root_analyzer :: analyzer where
  "null_root_analyzer =
     \<lparr>df_menu = null_root_tree, df_activite = [], df_grille = [], df_merged = []\<rparr>"

text \<open>A menu table whose only row is its own parent.\<close>

definition cyclic_analyzer :: analyzer where
  "cyclic_analyzer =
     \<lparr>df_menu = [\<lparr>cod_menu = 1, libelle = ''A'', cod_pere = Some 1\<rparr>],
      df_activite = [], df_grille = [], df_merged = []\<rparr>"

text \<open>One inner-joined row, and a menu table in which code 1 occurs twice.\<close>


definition sample_row :: joined_row where
  "sample_row = \<lparr>cod_acte = ''100'', nom_court = ''X'', nom_long = ''X'', menu_cod = 1,
     activ_cod = 1, phase_cod = 0, grille_cod = 3, apdt_modif = Some 18262, pu_base = 10\<rparr>"

definition duplicate_menu_analyzer :: analyzer where
  "duplicate_menu_analyzer =
     \<lparr>df_menu = [\<lparr>cod_menu = 1, libelle = ''A'', cod_pere = Some 0\<rparr>,
                 \<lparr>cod_menu = 1, libelle = ''B'', cod_pere = Some 0\<rparr>],
      df_activite = [], df_grille = [], df_merged = []\<rparr>"

section \<open>Spreadsheet export\<close>

text \<open>
  The clean-up of the menu label in \<open>export_menu_to_excel\<close>:
  \<open>"".join(c if c.isalnum() or c in (' ', '-', '_') else '_' for c in menu_name)\<close>.
\<close>

definition sanitize :: "string \<Rightarrow> string" where
  "sanitize menu_name =
     map (\<lambda>c. if isalnum c \<or> c \<in> set [CHR '' '', CHR ''-'', CHR ''_''] then c else CHR ''_'')
       menu_name"

text \<open>
  The name of the file \<open>export_menu_to_excel\<close> writes into the output directory:
  \<open>f"{menu_cod}_{menu_name}.xlsx"\<close>. The menu code is a value of the column \<open>menu_cod\<close> of the
  joined relation, an integer or a float holding an integer, printed by \<open>str_number\<close>.
\<close>

definition export_filename :: "analyzer \<Rightarrow> number \<Rightarrow> string" where
  "export_filename self code =
     (let menu_info = filter (\<lambda>r. cod_menu r = value_of code) (df_menu self);
          menu_name = (case menu_info of
                         [] \<Rightarrow> ''Menu_'' @ str_number code
                       | r # _ \<Rightarrow> take 100 (sanitize (libelle r)))
      in str_number code @ ''_'' @ menu_name @ ''.xlsx'')"

text \<open>
  \<open>export_menu_to_excel\<close> returns \<open>None\<close> without writing when the analysis is \<open>None\<close> or has
  no rows, else the name of the file it wrote. The sheets of the file are not modelled.
\<close>

definition export_menu_to_excel ::
  "analyzer \<Rightarrow> number \<Rightarrow> evolution list option \<Rightarrow> string option" where
  "export_menu_to_excel self code df_analysis =
     (case df_analysis of
        None \<Rightarrow> None
      | Some results \<Rightarrow> if results = [] then None else Some (export_filename self code))"

text \<open>Two menus whose labels are the same once cleaned up, and one record of an analysis.\<close>

definition label_analyzer :: analyzer where
  "label_analyzer =
     \<lparr>df_menu = [\<lparr>cod_menu = 7, libelle = ''Acte/Chir:urgical'', cod_pere = Some 0\<rparr>,
                 \<lparr>cod_menu = 8, libelle = ''Acte_Chir_urgical'', cod_pere = Some 0\<rparr>],
      df_activite = [], df_grille = [], df_merged = []\<rparr>"

definition sample_evolution :: evolution where
  "sample_evolution =
     \<lparr>e_cod_acte = ''100'', e_nom_court = ''X'', e_nom_long = ''X'', activite = 1,
      e_activite_libelle = None, e_grille_cod = 3, e_grille_libelle = Some ''G3'',
      date_premiere_modif = Some 18262, prix_initial = 10,
      date_derniere_modif = Some 18993, prix_actuel = 12,
      evolution_euros = 2, evolution_pct = 20, nb_modifications = 2\<rparr>"

section \<open>Reading a DBF table\<close>

text \<open>
  A parsed DBF file, as \<open>dbfread.DBF\<close> presents it: the names of the fields in file order,
  and the records, each giving the value of the field at every position. \<open>'v\<close> is the
  type of the cell values.
\<close>

record 'v dbf_file =
  dbf_fields :: "string list"
  dbf_records :: "(nat \<Rightarrow> 'v) list"

text \<open>
  A \<open>DataFrame\<close>: its column labels and its rows, a cell being \<open>None\<close> where the frame holds
  a missing value. \<open>df.empty\<close> is true of a frame without rows and of one without columns.
\<close>

record 'v frame =
  frame_columns :: "string list"
  frame_rows :: "'v option list list"

definition frame_empty :: "'v frame \<Rightarrow> bool" where
  "frame_empty df = (frame_rows df = [] \<or> frame_columns df = [])"

text \<open>
  \<open>iter(dbf)\<close> yields one ordered dictionary per record, built from the pairs of field
  name and value in field order: a name that occurs again keeps its place and takes the
  later value.
\<close>

definition ordered_dict :: "(string \<times> 'v) list \<Rightarrow> (string \<times> 'v) list" where
  "ordered_dict items = fold (\<lambda>(k, v). AList.update k v) items []"

text \<open>The keys of such a dictionary, which depend on the field names only.\<close>

definition dict_keys :: "string list \<Rightarrow> string list" where
  "dict_keys names = fold (\<lambda>k ks. if k \<in> set ks then ks else ks @ [k]) names []"

definition iter_dbf :: "'v dbf_file \<Rightarrow> (string \<times> 'v) list list" where
  "iter_dbf dbf =
     map (\<lambda>r. ordered_dict (map (\<lambda>i. (dbf_fields dbf ! i, r i)) [0..<length (dbf_fields dbf)]))
       (dbf_records dbf)"

text \<open>
  \<open>pd.DataFrame(records)\<close> for dictionaries: the columns are the keys in order of first
  appearance, and a row holds the value of each column in its dictionary.
\<close>

definition data_frame :: "(string \<times> 'v) list list \<Rightarrow> 'v frame" where
  "data_frame recs =
     (let cols = unique (concat (map (map fst) recs))
      in \<lparr>frame_columns = cols, frame_rows = map (\<lambda>r. map (map_of r) cols) recs\<rparr>)"

text \<open>\<open>convert_dbf_to_df\<close>, from the parsed file on.\<close>

definition convert_dbf_to_df :: "'v dbf_file \<Rightarrow> 'v frame" where
  "convert_dbf_to_df dbf =
     (let column_names = map str_lower (dbf_fields dbf);
          df = data_frame (iter_dbf dbf)
      in if \<not> frame_empty df then df\<lparr>frame_columns := map str_lower (frame_columns df)\<rparr>
         else \<lparr>frame_columns = column_names, frame_rows = []\<rparr>)"

text \<open>A price table without records, and one with two records.\<close>

definition empty_pu_base :: "int dbf_file" where
  "empty_pu_base = \<lparr>dbf_fields = [''AAP_COD'', ''GRILLE_COD'', ''PU_BASE''], dbf_records = []\<rparr>"

definition small_pu_base :: "int dbf_file" where
  "small_pu_base =
     \<lparr>dbf_fields = [''AAP_COD'', ''GRILLE_COD'', ''PU_BASE''],
      dbf_records = [\<lambda>i. [100, 3, 10] ! i, \<lambda>i. [100, 4, 12] ! i]\<rparr>"

text \<open>A table in which the field name \<open>A\<close> occurs twice.\<close>

definition repeated_field_table :: "int dbf_file" where
  "repeated_field_table = \<lparr>dbf_fields = [''A'', ''A''], dbf_records = [\<lambda>i. [1, 2] ! i]\<rparr>"

section \<open>Analysis of the price table\<close>

text \<open>
  What \<open>PUBaseAnalyzer\<close> sees of the file system: whether a path exists, and what
  \<open>convert_dbf_to_df\<close> reads at a path, a parsed DBF file or the exception raised by reading.
\<close>

record 'v world =
  path_exists :: "string \<Rightarrow> bool"
  read_dbf :: "string \<Rightarrow> error + 'v dbf_file"

text \<open>
  The state of a \<open>PUBaseAnalyzer\<close>: its attributes \<open>data_path\<close>, \<open>pu_base_path\<close> and \<open>df\<close>
  (\<open>None\<close> until the table is loaded), and the names of the report files written into
  \<open>output_dir\<close> so far, in the order of writing.
\<close>

record 'v pu_analyzer =
  pu_data_path :: string
  pu_base_path :: string
  pu_df :: "'v frame option"
  output_files :: "string list"

text \<open>
  \<open>data_path / name\<close> for a \<open>Path\<close> whose string is \<open>p\<close>: the string of the current directory
  is \<open>.\<close>, and only the string of a root ends in a slash.
\<close>

definition joinpath :: "string \<Rightarrow> string \<Rightarrow> string" where
  "joinpath p name =
     (if p = [] \<or> p = ''.'' then name
      else if last p = CHR ''/'' then p @ name
      else p @ ''/'' @ name)"

text \<open>
  \<open>__init__\<close>. It also creates the directory \<open>output_dir\<close>, which is no report file.
\<close>

definition init :: "string \<Rightarrow> 'v pu_analyzer" where
  "init data_path =
     \<lparr>pu_data_path = data_path, pu_base_path = joinpath data_path ''R_PU_BASE.dbf'',
      pu_df = None, output_files = []\<rparr>"

text \<open>
  A method returns the exception it raised, or \<open>None\<close> when it returned, together with the
  state it left. \<open>then_run\<close> is the sequencing of two statements: an exception of the first
  ends the run, since no caller catches it.
\<close>

definition then_run ::
  "error option \<times> 's \<Rightarrow> ('s \<Rightarrow> error option \<times> 's) \<Rightarrow> error option \<times> 's" where
  "then_run r f = (case fst r of Some e \<Rightarrow> r | None \<Rightarrow> f (snd r))"

text \<open>\<open>load_data\<close>.\<close>

definition load_data :: "'v world \<Rightarrow> 'v pu_analyzer \<Rightarrow> error option \<times> 'v pu_analyzer" where
  "load_data w self =
     (if \<not> path_exists w (pu_base_path self)
      then (Some (FileNotFoundError (''Fichier '' @ pu_base_path self @ '' introuvable'')), self)
      else (case read_dbf w (pu_base_path self) of
              Inl e \<Rightarrow> (Some e, self)
            | Inr dbf \<Rightarrow> (None, self\<lparr>pu_df := Some (convert_dbf_to_df dbf)\<rparr>)))"

text \<open>
  Of an analysis step the model keeps the accesses to the frame that can raise for a
  missing frame or a missing column, in their order, and the report files it writes, in
  their order. The statistics computed and printed, the content of the files and the
  column \<open>annee_modif\<close> that \<open>analyze_temporal\<close> adds to the frame are not modelled.
  \<open>reads\<close> is a sequence of accesses, each to a group of column labels: the first group
  with a label the frame lacks raises \<open>KeyError\<close> with its missing labels.
\<close>

definition reads :: "error \<Rightarrow> string list list \<Rightarrow> 'v pu_analyzer \<Rightarrow> error option" where
  "reads none_error groups self =
     (case pu_df self of
        None \<Rightarrow> Some none_error
      | Some df \<Rightarrow>
          (case filter (\<lambda>g. g \<noteq> [])
                  (map (filter (\<lambda>c. c \<notin> set (frame_columns df))) groups) of
             [] \<Rightarrow> None
           | missing # _ \<Rightarrow> Some (KeyError missing)))"

definition to_csv :: "string \<Rightarrow> 'v pu_analyzer \<Rightarrow> 'v pu_analyzer" where
  "to_csv name self = self\<lparr>output_files := output_files self @ [name]\<rparr>"

definition print_statistics :: "'v pu_analyzer \<Rightarrow> error option \<times> 'v pu_analyzer" where
  "print_statistics self =
     (reads TypeError [[''aap_cod''], [''grille_cod''], [''pu_base'']] self, self)"

definition analyze_by_grille :: "'v pu_analyzer \<Rightarrow> error option \<times> 'v pu_analyzer" where
  "analyze_by_grille self =
     (case reads AttributeError [[''grille_cod''], [''pu_base'', ''aap_cod'']] self of
        Some e \<Rightarrow> (Some e, self)
      | None \<Rightarrow> (None, to_csv ''analyse_par_grille.csv'' self))"

definition top_actes_by_price :: "int \<Rightarrow> 'v pu_analyzer \<Rightarrow> error option \<times> 'v pu_analyzer" where
  "top_actes_by_price n self =
     (case reads AttributeError
             [[''pu_base''], [''aap_cod'', ''grille_cod'', ''pu_base'', ''apdt_modif'']] self of
        Some e \<Rightarrow> (Some e, self)
      | None \<Rightarrow> (None, to_csv (''top_'' @ str_int n @ ''_actes_plus_chers.csv'') self))"

definition analyze_by_acte :: "'v pu_analyzer \<Rightarrow> error option \<times> 'v pu_analyzer" where
  "analyze_by_acte self =
     (case reads AttributeError [[''aap_cod''], [''pu_base'', ''grille_cod'']] self of
        Some e \<Rightarrow> (Some e, self)
      | None \<Rightarrow>
          (None, to_csv ''top_variations_prix.csv'' (to_csv ''analyse_par_acte.csv'' self)))"

definition analyze_temporal :: "'v pu_analyzer \<Rightarrow> error option \<times> 'v pu_analyzer" where
  "analyze_temporal self =
     (case reads TypeError [[''apdt_modif''], [''aap_cod'', ''pu_base'']] self of
        Some e \<Rightarrow> (Some e, self)
      | None \<Rightarrow> (None, to_csv ''analyse_temporelle.csv'' self))"

definition export_full_data :: "'v pu_analyzer \<Rightarrow> error option \<times> 'v pu_analyzer" where
  "export_full_data self =
     (case reads AttributeError [] self of
        Some e \<Rightarrow> (Some e, self)
      | None \<Rightarrow> (None, to_csv ''pu_base_complete.csv'' self))"

text \<open>\<open>run_full_analysis\<close>: the load, then the six steps.\<close>

definition run_full_analysis :: "'v world \<Rightarrow> 'v pu_analyzer \<Rightarrow> error option \<times> 'v pu_analyzer" where
  "run_full_analysis w self =
     then_run (then_run (then_run (then_run (then_run (then_run
       (load_data w self)
       print_statistics) analyze_by_grille) (top_actes_by_price 20)) analyze_by_acte)
       analyze_temporal) export_full_data"

text \<open>
  A file system without any file, and one whose only file is a price table with the four
  columns the steps read.
\<close>

definition no_files :: "int world" where
  "no_files = \<lparr>path_exists = (\<lambda>p. False), read_dbf = (\<lambda>p. Inl (FileNotFoundError p))\<rparr>"

definition full_pu_base :: "int dbf_file" where
  "full_pu_base =
     \<lparr>dbf_fields = [''AAP_COD'', ''GRILLE_COD'', ''PU_BASE'', ''APDT_MODIF''],
      dbf_records = [\<lambda>i. [100, 3, 10, 18262] ! i, \<lambda>i. [100, 3, 12, 18993] ! i]\<rparr>"

definition price_table_only :: "int world" where
  "price_table_only =
     \<lparr>path_exists = (\<lambda>p. p = ''data/R_PU_BASE.dbf''),
      read_dbf = (\<lambda>p. if p = ''data/R_PU_BASE.dbf'' then Inr full_pu_base
                       else Inl (FileNotFoundError p))\<rparr>"

section \<open>Properties of the filter stage\<close>

text \<open>
  C5: \<open>apply_filters\<close> keeps exactly the rows whose \<open>grille_cod\<close> is one of 3, 4, 5, 7, 17,
  18, whose \<open>activ_cod\<close> is one of 1, 2, 3, 4 and whose \<open>phase_cod\<close> is 0, in their order and
  multiplicity. Applying it a second time changes nothing, and the three tests give the
  same rows in each of their six orders.
\<close>

theorem apply_filters_exact:
  "df_merged (apply_filters self) =
     filter (\<lambda>r. grille_cod (base r) \<in> {3, 4, 5, 7, 17, 18} \<and>
                 activ_cod (base r) \<in> {1, 2, 3, 4} \<and> phase_cod (base r) = 0)
       (df_merged self)
   \<and> apply_filters (apply_filters self) = apply_filters self
   \<and> df_merged (apply_filters self) = filter_phase (filter_activites (filter_grilles (df_merged self)))
   \<and> filter_phase (filter_activites (filter_grilles d)) = filter_phase (filter_grilles (filter_activites d))
   \<and> filter_phase (filter_activites (filter_grilles d)) = filter_activites (filter_phase (filter_grilles d))
   \<and> filter_phase (filter_activites (filter_grilles d)) = filter_activites (filter_grilles (filter_phase d))
   \<and> filter_phase (filter_activites (filter_grilles d)) = filter_grilles (filter_phase (filter_activites d))
   \<and> filter_phase (filter_activites (filter_grilles d)) = filter_grilles (filter_activites (filter_phase d))"
proof -
  have exact: "df_merged (apply_filters self) =
     filter (\<lambda>r. grille_cod (base r) \<in> {3, 4, 5, 7, 17, 18} \<and>
                 activ_cod (base r) \<in> {1, 2, 3, 4} \<and> phase_cod (base r) = 0)
       (df_merged self)"
    by (simp add: apply_filters_def Let_def grilles_filter_def activites_filter_def
        phase_filter_def conj_commute conj_left_commute)
  have idem: "apply_filters (apply_filters self) = apply_filters self"
    by (simp add: apply_filters_def Let_def cong: conj_cong)
  have staged: "df_merged (apply_filters self) =
      filter_phase (filter_activites (filter_grilles (df_merged self)))"
    by (simp add: apply_filters_def Let_def filter_phase_def filter_activites_def filter_grilles_def)
  have orders:
    "filter_phase (filter_activites (filter_grilles d)) = filter_phase (filter_grilles (filter_activites d))"
    "filter_phase (filter_activites (filter_grilles d)) = filter_activites (filter_phase (filter_grilles d))"
    "filter_phase (filter_activites (filter_grilles d)) = filter_activites (filter_grilles (filter_phase d))"
    "filter_phase (filter_activites (filter_grilles d)) = filter_grilles (filter_phase (filter_activites d))"
    "filter_phase (filter_activites (filter_grilles d)) = filter_grilles (filter_activites (filter_phase d))"
    by (auto simp add: filter_phase_def filter_activites_def filter_grilles_def intro: filter_cong)
  from exact idem staged orders show ?thesis by blast
qed

section \<open>Properties of the menu hierarchy path\<close>

lemma filter_first_key:
  "filter (\<lambda>r. cod_menu r = c) df = m # ms \<Longrightarrow> cod_menu m = c"
proof -
  assume "filter (\<lambda>r. cod_menu r = c) df = m # ms"
  then have "m \<in> set (filter (\<lambda>r. cod_menu r = c) df)" by simp
  then show ?thesis by simp
qed

lemma read_cod_pere_value: "map_option value_of (read_cod_pere df m) = cod_pere m"
  by (cases "cod_pere m") (simp_all add: read_cod_pere_def column_value_def)

lemma called_value: "map_option value_of (map_option PyInt code) = code"
  by (cases code) simp_all

text \<open>The last row of the parent chain of a code is a row of that code.\<close>

lemma chain_last:
  assumes "menu_chain df c rows" and "rows \<noteq> []"
  shows "c = Some (cod_menu (last rows))"
  using assms
proof (cases rule: menu_chain.cases)
  case (chain_step k m ms rs)
  from chain_step(4) have "cod_menu m = k" by (rule filter_first_key)
  with chain_step(1,2) show ?thesis by simp
qed simp_all

text \<open>
  Along a parent chain the loop returns, with one segment per row of the chain put in
  front of the path it started from: the segment of each ancestor, then the segment of
  the row of the code it started from, printed as that code is held.
\<close>

lemma walk_menu_chain:
  "menu_chain df c rows \<Longrightarrow> c = map_option value_of cur \<Longrightarrow>
     walk_menu df path cur =
       Some (map (ancestor_segment df) (butlast rows)
             @ (if rows = [] then []
                else [str_number (the cur) @ ''_'' @ libelle (last rows)])
             @ path)"
proof (induction arbitrary: path cur rule: menu_chain.induct)
  case (chain_null df)
  then show ?case by (simp add: walk_menu.simps)
next
  case (chain_root df)
  then obtain v where "cur = Some v" "value_of v = 0" by (cases cur) auto
  then show ?case by (simp add: walk_menu.simps)
next
  case (chain_missing c df)
  from chain_missing.prems obtain v where "cur = Some v" "value_of v = c" by (cases cur) auto
  with chain_missing.hyps show ?case by (simp add: walk_menu.simps)
next
  case (chain_step c df m ms rs)
  from chain_step.prems obtain v where v: "cur = Some v" "value_of v = c" by (cases cur) auto
  let ?seg = "str_number v @ ''_'' @ libelle m"
  have ancestors: "map (ancestor_segment df) (butlast rs)
             @ (if rs = [] then []
                else [str_number (the (read_cod_pere df m)) @ ''_'' @ libelle (last rs)])
             = map (ancestor_segment df) rs"
  proof (cases rs rule: rev_cases)
    case Nil
    then show ?thesis by simp
  next
    case (snoc rs' m')
    with chain_last[OF chain_step.hyps(3)] have "cod_pere m = Some (cod_menu m')" by simp
    with snoc show ?thesis by (simp add: read_cod_pere_def ancestor_segment_def)
  qed
  have "walk_menu df path cur = walk_menu df (?seg # path) (read_cod_pere df m)"
    using chain_step.hyps(1,2) v by (subst walk_menu.simps) simp
  also have "\<dots> = Some (map (ancestor_segment df) (butlast rs)
             @ (if rs = [] then []
                else [str_number (the (read_cod_pere df m)) @ ''_'' @ libelle (last rs)])
             @ ?seg # path)"
    by (rule chain_step.IH) (simp add: read_cod_pere_value)
  also have "\<dots> = Some (map (ancestor_segment df) rs @ ?seg # path)"
    using ancestors by simp
  finally show ?case using v by simp
qed

text \<open>Whenever the loop returns, the code it started from has a parent chain that ends.\<close>

lemma walk_menu_returns_chain:
  assumes "walk_menu df path cur = Some res"
  shows "\<exists>rows. menu_chain df (map_option value_of cur) rows"
proof (rule walk_menu.raw_induct[where P="\<lambda>df path cur res. \<exists>rows. menu_chain df (map_option value_of cur) rows", OF _ assms], goal_cases)
  case (1 walk df path cur res)
  show ?case
  proof (cases cur)
    case None
    then show ?thesis by (auto intro: menu_chain.intros)
  next
    case (Some v)
    show ?thesis
    proof (cases "value_of v = 0")
      case True
      with Some show ?thesis by (auto intro: menu_chain.intros)
    next
      case False
      show ?thesis
      proof (cases "filter (\<lambda>r. cod_menu r = value_of v) df")
        case Nil
        with Some False show ?thesis by (auto intro: menu_chain.intros)
      next
        case (Cons m ms)
        with 1(2) Some False
        have "walk df ((str_number v @ ''_'' @ libelle m) # path) (read_cod_pere df m) = Some res"
          by simp
        from 1(1)[OF this] obtain rs where "menu_chain df (cod_pere m) rs"
          by (auto simp add: read_cod_pere_value)
        with Some False Cons show ?thesis by (auto intro: menu_chain.intros)
      qed
    qed
  qed
qed

lemma path_of_chain:
  assumes "menu_chain (df_menu self) code rows"
  shows "get_menu_hierarchy_path self code =
        Some (if rows = [] then ''SANS_MENU''
              else join '' > '' (map (ancestor_segment (df_menu self)) (butlast rows)
                                 @ [segment (last rows)]))"
proof (cases "rows = []")
  case True
  with walk_menu_chain[OF assms, of "map_option PyInt code" "[]"] show ?thesis
    by (simp add: get_menu_hierarchy_path_def called_value)
next
  case False
  from chain_last[OF assms False] have "map_option PyInt code = Some (PyInt (cod_menu (last rows)))"
    by simp
  with walk_menu_chain[OF assms, of "map_option PyInt code" "[]"] False show ?thesis
    by (simp add: get_menu_hierarchy_path_def called_value segment_def)
qed

lemma ancestor_segment_int:
  assumes "\<forall>r\<in>set df. cod_pere r \<noteq> None"
  shows "ancestor_segment df m = segment m"
  using assms
  by (simp add: ancestor_segment_def segment_def column_value_def cod_pere_float_def list_ex_iff)

lemma str_int_digits: "str_int 1 = ''1''" "str_int 2 = ''2''"
  by (simp_all add: str_int_def str_nat.simps digit_char_def)

lemma synthetic_chain:
  "menu_chain synthetic_tree (Some 2) [synthetic_tree ! 1, synthetic_tree ! 2]"
proof -
  have b: "menu_chain synthetic_tree (Some 1) ([] @ [synthetic_tree ! 1])"
    by (rule chain_step[where ms="[]"]) (simp_all add: synthetic_tree_def chain_root)
  have "menu_chain synthetic_tree (Some 2) (([] @ [synthetic_tree ! 1]) @ [synthetic_tree ! 2])"
    by (rule chain_step[where ms="[]"]) (use b in \<open>simp_all add: synthetic_tree_def\<close>)
  then show ?thesis by simp
qed

lemma null_root_chain:
  "menu_chain null_root_tree (Some 2) [null_root_tree ! 1, null_root_tree ! 2]"
proof -
  have b: "menu_chain null_root_tree (Some 1) ([] @ [null_root_tree ! 1])"
    by (rule chain_step[where ms="[]"]) (simp_all add: null_root_tree_def chain_root)
  have "menu_chain null_root_tree (Some 2) (([] @ [null_root_tree ! 1]) @ [null_root_tree ! 2])"
    by (rule chain_step[where ms="[]"]) (use b in \<open>simp_all add: null_root_tree_def\<close>)
  then show ?thesis by simp
qed

text \<open>No chain ends in a table whose only row is its own parent.\<close>

lemma cyclic_no_chain:
  "menu_chain df c rows \<Longrightarrow> df = df_menu cyclic_analyzer \<Longrightarrow> c \<noteq> Some 1"
proof (induction rule: menu_chain.induct)
  case (chain_step c df m ms rs)
  show ?case
  proof
    assume "Some c = Some 1"
    with chain_step.hyps(2) chain_step.prems have "cod_pere m = Some 1"
      by (auto simp add: cyclic_analyzer_def)
    with chain_step.IH chain_step.prems show False by simp
  qed
qed (auto simp add: cyclic_analyzer_def)

lemma cyclic_no_return: "get_menu_hierarchy_path cyclic_analyzer (Some 1) = None"
proof (cases "walk_menu (df_menu cyclic_analyzer) [] (Some (PyInt 1))")
  case None
  then show ?thesis by (simp add: get_menu_hierarchy_path_def)
next
  case (Some res)
  from walk_menu_returns_chain[OF this]
  obtain rows where "menu_chain (df_menu cyclic_analyzer) (Some 1) rows" by auto
  with cyclic_no_chain show ?thesis by blast
qed

lemma synthetic_path: "get_menu_hierarchy_path synthetic_analyzer (Some 2) = Some ''1_A > 2_B''"
  by (simp add: get_menu_hierarchy_path_def synthetic_analyzer_def synthetic_tree_def
      walk_menu.simps str_int_digits read_cod_pere_def column_value_def cod_pere_float_def)

lemma null_root_path: "get_menu_hierarchy_path null_root_analyzer (Some 2) = Some ''1.0_A > 2_B''"
  by (simp add: get_menu_hierarchy_path_def null_root_analyzer_def null_root_tree_def
      walk_menu.simps str_int_digits read_cod_pere_def column_value_def cod_pere_float_def)

text \<open>
  C4, as amended: for every menu table and code whose parent chain ends,
  \<open>get_menu_hierarchy_path\<close> returns the segments \<open>code_label\<close> of the rows of the chain,
  topmost ancestor first, joined by \<open>" > "\<close>; the walk stops at code 0, at a null parent and
  at a code without a row, none of which adds a segment, and an empty path gives
  \<open>SANS_MENU\<close>. The code of the row the walk starts from is printed as the integer passed;
  the code of an ancestor is printed as read from the column \<open>cod_pere\<close>: as an integer when
  no row of the table has a null parent, and followed by \<open>.0\<close> when some row has one. A
  code without a row in the table gives \<open>SANS_MENU\<close>. On the tree ROOT (parent 0), A (parent
  0), B (parent 1), code 2 gives \<open>1_A > 2_B\<close> and the absent code 3 gives \<open>SANS_MENU\<close>; when
  the parent of ROOT is null, code 2 gives \<open>1.0_A > 2_B\<close>.
\<close>

theorem get_menu_hierarchy_path_chain:
  "(menu_chain (df_menu self) code rows \<longrightarrow>
      get_menu_hierarchy_path self code =
        Some (if rows = [] then ''SANS_MENU''
              else join '' > '' (map (ancestor_segment (df_menu self)) (butlast rows)
                                 @ [segment (last rows)])))
   \<and> (menu_chain (df_menu self) code rows \<and> (\<forall>r\<in>set (df_menu self). cod_pere r \<noteq> None) \<longrightarrow>
        get_menu_hierarchy_path self code =
          Some (if rows = [] then ''SANS_MENU'' else join '' > '' (map segment rows)))
   \<and> segment m = str_int (cod_menu m) @ ''_'' @ libelle m
   \<and> ancestor_segment df m =
       str_int (cod_menu m) @ (if \<exists>r\<in>set df. cod_pere r = None then ''.0'' else [])
         @ ''_'' @ libelle m
   \<and> (filter (\<lambda>r. cod_menu r = c) (df_menu self) = [] \<longrightarrow>
        get_menu_hierarchy_path self (Some c) = Some ''SANS_MENU'')
   \<and> get_menu_hierarchy_path synthetic_analyzer (Some 2) = Some ''1_A > 2_B''
   \<and> get_menu_hierarchy_path synthetic_analyzer (Some 3) = Some ''SANS_MENU''
   \<and> get_menu_hierarchy_path null_root_analyzer (Some 2) = Some ''1.0_A > 2_B''"
proof -
  have general: "get_menu_hierarchy_path self code =
        Some (if rows = [] then ''SANS_MENU''
              else join '' > '' (map (ancestor_segment (df_menu self)) (butlast rows)
                                 @ [segment (last rows)]))"
    if "menu_chain (df_menu self) code rows"
    using that by (rule path_of_chain)
  have ints: "get_menu_hierarchy_path self code =
          Some (if rows = [] then ''SANS_MENU'' else join '' > '' (map segment rows))"
    if chain: "menu_chain (df_menu self) code rows"
      and nonull: "\<forall>r\<in>set (df_menu self). cod_pere r \<noteq> None"
  proof (cases rows rule: rev_cases)
    case Nil
    with path_of_chain[OF chain] show ?thesis by simp
  next
    case (snoc rs m)
    have "map (ancestor_segment (df_menu self)) rs = map segment rs"
      using ancestor_segment_int[OF nonull] by simp
    with path_of_chain[OF chain] snoc show ?thesis by simp
  qed
  have seg: "segment m = str_int (cod_menu m) @ ''_'' @ libelle m"
    by (simp add: segment_def)
  have anc: "ancestor_segment df m =
       str_int (cod_menu m) @ (if \<exists>r\<in>set df. cod_pere r = None then ''.0'' else [])
         @ ''_'' @ libelle m"
    by (simp add: ancestor_segment_def column_value_def cod_pere_float_def list_ex_iff)
  have absent: "get_menu_hierarchy_path self (Some c) = Some ''SANS_MENU''"
    if "filter (\<lambda>r. cod_menu r = c) (df_menu self) = []"
    using that by (simp add: get_menu_hierarchy_path_def walk_menu.simps)
  have three: "get_menu_hierarchy_path synthetic_analyzer (Some 3) = Some ''SANS_MENU''"
    by (simp add: get_menu_hierarchy_path_def synthetic_analyzer_def synthetic_tree_def
        walk_menu.simps)
  from general ints seg anc absent synthetic_path three null_root_path
  show ?thesis by blast
qed

theorem get_menu_hierarchy_path_chain_witness:
  "menu_chain (df_menu synthetic_analyzer) (Some 2) [synthetic_tree ! 1, synthetic_tree ! 2]
   \<and> list_all (\<lambda>r. cod_pere r \<noteq> None) (df_menu synthetic_analyzer)
   \<and> get_menu_hierarchy_path synthetic_analyzer (Some 2) =
       Some (join '' > '' (map segment [synthetic_tree ! 1, synthetic_tree ! 2]))
   \<and> join '' > '' (map segment [synthetic_tree ! 1, synthetic_tree ! 2]) = ''1_A > 2_B''
   \<and> menu_chain (df_menu null_root_analyzer) (Some 2) [null_root_tree ! 1, null_root_tree ! 2]
   \<and> get_menu_hierarchy_path null_root_analyzer (Some 2) =
       Some (join '' > '' [ancestor_segment null_root_tree (null_root_tree ! 1),
                           segment (null_root_tree ! 2)])
   \<and> join '' > '' [ancestor_segment null_root_tree (null_root_tree ! 1),
                    segment (null_root_tree ! 2)] = ''1.0_A > 2_B''
   \<and> filter (\<lambda>r. cod_menu r = 3) (df_menu synthetic_analyzer) = []
   \<and> get_menu_hierarchy_path synthetic_analyzer (Some 3) = Some ''SANS_MENU''"
proof -
  have chain: "menu_chain (df_menu synthetic_analyzer) (Some 2)
      [synthetic_tree ! 1, synthetic_tree ! 2]"
    using synthetic_chain by (simp add: synthetic_analyzer_def)
  have nonull: "\<forall>r\<in>set (df_menu synthetic_analyzer). cod_pere r \<noteq> None"
    by (simp add: synthetic_analyzer_def synthetic_tree_def)
  then have nonull': "list_all (\<lambda>r. cod_pere r \<noteq> None) (df_menu synthetic_analyzer)"
    by (simp add: list_all_iff)
  have chain': "menu_chain (df_menu null_root_analyzer) (Some 2)
      [null_root_tree ! 1, null_root_tree ! 2]"
    using null_root_chain by (simp add: null_root_analyzer_def)
  have absent: "filter (\<lambda>r. cod_menu r = 3) (df_menu synthetic_analyzer) = []"
    by (simp add: synthetic_analyzer_def synthetic_tree_def)
  have joined: "join '' > '' (map segment [synthetic_tree ! 1, synthetic_tree ! 2]) = ''1_A > 2_B''"
    by (simp add: synthetic_tree_def segment_def str_int_digits)
  have joined': "join '' > '' [ancestor_segment null_root_tree (null_root_tree ! 1),
                    segment (null_root_tree ! 2)] = ''1.0_A > 2_B''"
    by (simp add: null_root_tree_def segment_def ancestor_segment_def column_value_def
        cod_pere_float_def str_int_digits)
  note ints = get_menu_hierarchy_path_chain[of synthetic_analyzer "Some 2"
      "[synthetic_tree ! 1, synthetic_tree ! 2]" _ _ 3]
  note floats = get_menu_hierarchy_path_chain[of null_root_analyzer "Some 2"
      "[null_root_tree ! 1, null_root_tree ! 2]"]
  from ints chain nonull
  have a: "get_menu_hierarchy_path synthetic_analyzer (Some 2) =
       Some (join '' > '' (map segment [synthetic_tree ! 1, synthetic_tree ! 2]))"
    by simp
  from floats chain'
  have b: "get_menu_hierarchy_path null_root_analyzer (Some 2) =
       Some (join '' > '' [ancestor_segment null_root_tree (null_root_tree ! 1),
                           segment (null_root_tree ! 2)])"
    by (simp add: null_root_analyzer_def)
  from ints absent
  have c: "get_menu_hierarchy_path synthetic_analyzer (Some 3) = Some ''SANS_MENU''"
    by simp
  show ?thesis by (intro conjI chain nonull' a joined chain' b joined' absent c)
qed

text \<open>
  C4 as stated fails: on a table whose only row is its own parent the function does not
  return, and on the synthetic tree whose ROOT has a null parent the code 1 of the
  ancestor A is read back as a float, so code 2 gives \<open>1.0_A > 2_B\<close>.
\<close>

theorem get_menu_hierarchy_path_chain_counterexample:
  "get_menu_hierarchy_path cyclic_analyzer (Some 1) = None
   \<and> get_menu_hierarchy_path null_root_analyzer (Some 2) = Some ''1.0_A > 2_B''
   \<and> get_menu_hierarchy_path null_root_analyzer (Some 2) \<noteq> Some ''1_A > 2_B''"
  by (simp add: cyclic_no_return null_root_path)

text \<open>
  C9: \<open>get_menu_hierarchy_path\<close> returns exactly when the parent chain of the code ends,
  that is when following \<open>cod_pere\<close> from the code reaches a null parent, code 0 or a code
  without a row in the table. On a table whose row is its own parent it does not return.
\<close>

theorem get_menu_hierarchy_path_terminates_iff:
  "((\<exists>s. get_menu_hierarchy_path self code = Some s) \<longleftrightarrow>
      (\<exists>rows. menu_chain (df_menu self) code rows))
   \<and> get_menu_hierarchy_path cyclic_analyzer (Some 1) = None"
proof -
  have iff: "(\<exists>s. get_menu_hierarchy_path self code = Some s) \<longleftrightarrow>
      (\<exists>rows. menu_chain (df_menu self) code rows)" for self code
  proof
    assume "\<exists>s. get_menu_hierarchy_path self code = Some s"
    then obtain res where "walk_menu (df_menu self) [] (map_option PyInt code) = Some res"
      by (auto simp add: get_menu_hierarchy_path_def)
    from walk_menu_returns_chain[OF this]
    show "\<exists>rows. menu_chain (df_menu self) code rows"
      by (simp add: called_value)
  next
    assume "\<exists>rows. menu_chain (df_menu self) code rows"
    then obtain rows where "menu_chain (df_menu self) code rows" ..
    from walk_menu_chain[OF this, of "map_option PyInt code" "[]"]
    show "\<exists>s. get_menu_hierarchy_path self code = Some s"
      by (simp add: get_menu_hierarchy_path_def called_value)
  qed
  have "\<not> (\<exists>rows. menu_chain (df_menu cyclic_analyzer) (Some 1) rows)"
    using cyclic_no_chain by blast
  with iff[of cyclic_analyzer "Some 1"]
  have "get_menu_hierarchy_path cyclic_analyzer (Some 1) = None" by simp
  with iff show ?thesis by blast
qed

theorem get_menu_hierarchy_path_terminates_iff_witness:
  "(\<exists>rows. menu_chain (df_menu synthetic_analyzer) (Some 2) rows)
   \<and> (\<exists>s. get_menu_hierarchy_path synthetic_analyzer (Some 2) = Some s)"
proof -
  have "\<exists>rows. menu_chain (df_menu synthetic_analyzer) (Some 2) rows"
    using synthetic_chain by (auto simp add: synthetic_analyzer_def)
  with get_menu_hierarchy_path_terminates_iff[of synthetic_analyzer "Some 2"]
  show ?thesis by blast
qed

section \<open>Properties of the join pipeline\<close>

lemma filter_key_distinct:
  "distinct (map right_on right) \<Longrightarrow> length (filter (\<lambda>r. right_on r = k) right) \<le> 1"
  by (induction right) (auto simp add: filter_empty_conv image_iff)

lemma merge_left_Nil: "merge_left lo ro [] right = []"
  by (simp add: merge_left_def)

lemma merge_left_Cons:
  "merge_left lo ro (l # left) right =
     (case filter (\<lambda>r. ro r = lo l) right of [] \<Rightarrow> [(l, None)] | ms \<Rightarrow> map (\<lambda>r. (l, Some r)) ms)
     @ merge_left lo ro left right"
  by (simp add: merge_left_def)

lemma merge_left_length_ge: "length left \<le> length (merge_left lo ro left right)"
  by (induction left) (auto simp add: merge_left_Nil merge_left_Cons split: list.splits)

lemma merge_left_set_fst: "fst ` set (merge_left lo ro left right) = set left"
  by (induction left) (auto simp add: merge_left_Nil merge_left_Cons image_Un image_image split: list.splits)

lemma merge_left_unique:
  "distinct (map ro right) \<Longrightarrow> map fst (merge_left lo ro left right) = left"
proof (induction left)
  case Nil
  show ?case by (simp add: merge_left_Nil)
next
  case (Cons l left)
  from filter_key_distinct[OF Cons.prems, of "lo l"]
  have "length (filter (\<lambda>r. ro r = lo l) right) \<le> 1" .
  then have "map fst (case filter (\<lambda>r. ro r = lo l) right of [] \<Rightarrow> [(l, None)]
                      | ms \<Rightarrow> map (\<lambda>r. (l, Some r)) ms) = [l]"
    by (cases "filter (\<lambda>r. ro r = lo l) right") (auto)
  with Cons show ?case by (simp add: merge_left_Cons)
qed

lemma merge_left_match:
  "(l, x) \<in> set (merge_left lo ro left right) \<Longrightarrow>
     (case x of None \<Rightarrow> filter (\<lambda>r. ro r = lo l) right = []
              | Some r \<Rightarrow> r \<in> set right \<and> ro r = lo l)"
proof (induction left)
  case Nil
  then show ?case by (simp add: merge_left_Nil)
next
  case (Cons a left)
  show ?case
  proof (cases "filter (\<lambda>r. ro r = lo a) right")
    case Nil
    with Cons show ?thesis by (auto simp add: merge_left_Cons)
  next
    case (Cons m ms)
    have sub: "set (m # ms) \<subseteq> {r \<in> set right. ro r = lo a}"
      using Cons[symmetric] by auto
    from Cons.prems Cons.IH Cons sub show ?thesis
      by (auto simp add: merge_left_Cons)
  qed
qed

lemma merge_tables_base:
  "map base (df_merged (merge_tables self df_temp)) =
     map (\<lambda>x. fst (fst (fst x)))
       (merge_left (\<lambda>l. grille_cod (fst (fst l))) cod_grille
          (merge_left (\<lambda>l. activ_cod (fst l)) cod_activ
             (merge_left menu_cod cod_menu df_temp (df_menu self)) (df_activite self))
          (df_grille self))"
  by (simp add: merge_tables_def Let_def split_def comp_def)


lemma find_filter:
  "find P xs = (case filter P xs of [] \<Rightarrow> None | x # _ \<Rightarrow> Some x)"
  by (induction xs) auto

lemma merge_left_find:
  assumes "distinct (map ro right)"
  shows "merge_left lo ro left right = map (\<lambda>l. (l, find (\<lambda>r. ro r = lo l) right)) left"
proof (induction left)
  case Nil
  show ?case by (simp add: merge_left_Nil)
next
  case (Cons l left)
  from filter_key_distinct[OF assms, of "lo l"]
  have "length (filter (\<lambda>r. ro r = lo l) right) \<le> 1" .
  then have "(case filter (\<lambda>r. ro r = lo l) right of [] \<Rightarrow> [(l, None)]
                      | ms \<Rightarrow> map (\<lambda>r. (l, Some r)) ms) = [(l, find (\<lambda>r. ro r = lo l) right)]"
    by (cases "filter (\<lambda>r. ro r = lo l) right") (auto simp add: find_filter)
  with Cons show ?case by (simp add: merge_left_Cons)
qed

lemma merge_tables_find:
  assumes "distinct (map cod_menu (df_menu self))"
    and "distinct (map cod_activ (df_activite self))"
    and "distinct (map cod_grille (df_grille self))"
  shows "df_merged (merge_tables self df_temp) =
     map (\<lambda>j. \<lparr>base = j,
                menu_part = find (\<lambda>m. cod_menu m = menu_cod j) (df_menu self),
                activite_part = find (\<lambda>a. cod_activ a = activ_cod j) (df_activite self),
                grille_part = find (\<lambda>g. cod_grille g = grille_cod j) (df_grille self)\<rparr>) df_temp"
  by (simp add: merge_tables_def Let_def merge_left_find[OF assms(1)] merge_left_find[OF assms(2)]
      merge_left_find[OF assms(3)] comp_def)

lemma merge_left_fst:
  "map fst (merge_left lo ro left right) =
     concat (map (\<lambda>l. replicate (max 1 (length (filter (\<lambda>r. ro r = lo l) right))) l) left)"
proof (induction left)
  case Nil
  show ?case by (simp add: merge_left_Nil)
next
  case (Cons l left)
  have "map fst (case filter (\<lambda>r. ro r = lo l) right of [] \<Rightarrow> [(l, None)]
                      | ms \<Rightarrow> map (\<lambda>r. (l, Some r)) ms)
        = replicate (max 1 (length (filter (\<lambda>r. ro r = lo l) right))) l"
    by (cases "filter (\<lambda>r. ro r = lo l) right") (simp_all add: comp_def map_replicate_const)
  with Cons show ?case by (simp add: merge_left_Cons)
qed

lemma merge_left_snd:
  "map snd (merge_left lo ro left right) =
     concat (map (\<lambda>l. if filter (\<lambda>r. ro r = lo l) right = [] then [None]
                       else map Some (filter (\<lambda>r. ro r = lo l) right)) left)"
proof (induction left)
  case Nil
  show ?case by (simp add: merge_left_Nil)
next
  case (Cons l left)
  have "map snd (case filter (\<lambda>r. ro r = lo l) right of [] \<Rightarrow> [(l, None)]
                      | ms \<Rightarrow> map (\<lambda>r. (l, Some r)) ms)
        = (if filter (\<lambda>r. ro r = lo l) right = [] then [None]
           else map Some (filter (\<lambda>r. ro r = lo l) right))"
    by (cases "filter (\<lambda>r. ro r = lo l) right") (simp_all add: comp_def)
  with Cons show ?case by (simp add: merge_left_Cons)
qed

lemma merge_left_length:
  "length (merge_left lo ro left right) =
     sum_list (map (\<lambda>l. max 1 (length (filter (\<lambda>r. ro r = lo l) right))) left)"
proof -
  have "length (merge_left lo ro left right) = length (map fst (merge_left lo ro left right))"
    by simp
  also have "\<dots> = sum_list (map (\<lambda>l. max 1 (length (filter (\<lambda>r. ro r = lo l) right))) left)"
    unfolding merge_left_fst by (simp add: length_concat comp_def)
  finally show ?thesis .
qed

lemma merge_left_keyed:
  "map (\<lambda>p. g (fst p)) (merge_left (\<lambda>l. k (g l)) ro left right) =
     concat (map (\<lambda>j. replicate (max 1 (length (filter (\<lambda>r. ro r = k j) right))) j) (map g left))"
proof -
  have "map (\<lambda>p. g (fst p)) (merge_left (\<lambda>l. k (g l)) ro left right) =
        map g (map fst (merge_left (\<lambda>l. k (g l)) ro left right))"
    by (simp add: comp_def)
  also have "\<dots> = concat (map (\<lambda>j. replicate (max 1 (length (filter (\<lambda>r. ro r = k j) right))) j)
                      (map g left))"
    unfolding merge_left_fst by (simp add: map_concat comp_def)
  finally show ?thesis .
qed

lemma concat_replicate_const:
  "concat (replicate m (replicate n x)) = replicate (m * n) x"
  by (induction m) (simp_all add: replicate_add)

lemma concat_replicate_replicate:
  "concat (map (\<lambda>j. replicate (n j) j) (replicate m x)) = replicate (m * n x) x"
  by (simp add: concat_replicate_const)

lemma concat_replicate_concat:
  "concat (map (\<lambda>j. replicate (n j) j) (concat (map (\<lambda>j. replicate (m j) j) xs))) =
     concat (map (\<lambda>j. replicate (m j * n j) j) xs)"
  by (induction xs) (simp_all add: concat_replicate_const)

lemma merge_tables_base_rows:
  "map base (df_merged (merge_tables self df_temp)) =
     concat (map (\<lambda>j. replicate
        (max 1 (length (filter (\<lambda>m. cod_menu m = menu_cod j) (df_menu self)))
         * max 1 (length (filter (\<lambda>a. cod_activ a = activ_cod j) (df_activite self)))
         * max 1 (length (filter (\<lambda>g. cod_grille g = grille_cod j) (df_grille self)))) j) df_temp)"
proof -
  let ?t4 = "merge_left menu_cod cod_menu df_temp (df_menu self)"
  let ?t5 = "merge_left (\<lambda>l. activ_cod (fst l)) cod_activ ?t4 (df_activite self)"
  let ?t6 = "merge_left (\<lambda>l. grille_cod (fst (fst l))) cod_grille ?t5 (df_grille self)"
  let ?n4 = "\<lambda>j. max 1 (length (filter (\<lambda>m. cod_menu m = menu_cod j) (df_menu self)))"
  let ?n5 = "\<lambda>j. max 1 (length (filter (\<lambda>a. cod_activ a = activ_cod j) (df_activite self)))"
  let ?n6 = "\<lambda>j. max 1 (length (filter (\<lambda>g. cod_grille g = grille_cod j) (df_grille self)))"
  have s4: "map fst ?t4 = concat (map (\<lambda>j. replicate (?n4 j) j) df_temp)"
    by (rule merge_left_fst)
  have s5: "map (\<lambda>p. fst (fst p)) ?t5 = concat (map (\<lambda>j. replicate (?n5 j) j) (map fst ?t4))"
    by (rule merge_left_keyed[where g=fst and k=activ_cod])
  have s6: "map (\<lambda>p. fst (fst (fst p))) ?t6 =
      concat (map (\<lambda>j. replicate (?n6 j) j) (map (\<lambda>p. fst (fst p)) ?t5))"
    by (rule merge_left_keyed[where g="\<lambda>p. fst (fst p)" and k=grille_cod])
  have "map base (df_merged (merge_tables self df_temp)) = map (\<lambda>p. fst (fst (fst p))) ?t6"
    by (rule merge_tables_base)
  also have "\<dots> = concat (map (\<lambda>j. replicate (?n4 j * ?n5 j * ?n6 j) j) df_temp)"
    unfolding s6 s5 s4 by (simp only: concat_replicate_concat)
  finally show ?thesis .
qed

lemma merge_tables_length:
  "length (df_merged (merge_tables self df_temp)) =
     sum_list (map (\<lambda>j.
        max 1 (length (filter (\<lambda>m. cod_menu m = menu_cod j) (df_menu self)))
         * max 1 (length (filter (\<lambda>a. cod_activ a = activ_cod j) (df_activite self)))
         * max 1 (length (filter (\<lambda>g. cod_grille g = grille_cod j) (df_grille self)))) df_temp)"
proof -
  have "length (df_merged (merge_tables self df_temp)) =
        length (map base (df_merged (merge_tables self df_temp)))" by simp
  also have "\<dots> = sum_list (map (\<lambda>j.
        max 1 (length (filter (\<lambda>m. cod_menu m = menu_cod j) (df_menu self)))
         * max 1 (length (filter (\<lambda>a. cod_activ a = activ_cod j) (df_activite self)))
         * max 1 (length (filter (\<lambda>g. cod_grille g = grille_cod j) (df_grille self)))) df_temp)"
    unfolding merge_tables_base_rows by (simp add: length_concat comp_def)
  finally show ?thesis .
qed

lemma merge_left_in:
  assumes "(l, x) \<in> set (merge_left lo ro left right)"
  shows "l \<in> set left"
proof -
  from assms have "fst (l, x) \<in> fst ` set (merge_left lo ro left right)" by (rule imageI)
  then show ?thesis by (simp add: merge_left_set_fst)
qed

lemma merge_tables_parts:
  assumes "r \<in> set (df_merged (merge_tables self df_temp))"
  shows "base r \<in> set df_temp"
    and "case menu_part r of
           None \<Rightarrow> filter (\<lambda>m. cod_menu m = menu_cod (base r)) (df_menu self) = []
         | Some m \<Rightarrow> m \<in> set (df_menu self) \<and> cod_menu m = menu_cod (base r)"
    and "case activite_part r of
           None \<Rightarrow> filter (\<lambda>a. cod_activ a = activ_cod (base r)) (df_activite self) = []
         | Some a \<Rightarrow> a \<in> set (df_activite self) \<and> cod_activ a = activ_cod (base r)"
    and "case grille_part r of
           None \<Rightarrow> filter (\<lambda>g. cod_grille g = grille_cod (base r)) (df_grille self) = []
         | Some g \<Rightarrow> g \<in> set (df_grille self) \<and> cod_grille g = grille_cod (base r)"
proof -
  let ?t4 = "merge_left menu_cod cod_menu df_temp (df_menu self)"
  let ?t5 = "merge_left (\<lambda>l. activ_cod (fst l)) cod_activ ?t4 (df_activite self)"
  let ?t6 = "merge_left (\<lambda>l. grille_cod (fst (fst l))) cod_grille ?t5 (df_grille self)"
  from assms obtain j m a g
    where r: "r = \<lparr>base = j, menu_part = m, activite_part = a, grille_part = g\<rparr>"
      and in6: "(((j, m), a), g) \<in> set ?t6"
    by (auto simp add: merge_tables_def Let_def)
  from in6 have in5: "((j, m), a) \<in> set ?t5" by (rule merge_left_in)
  then have in4: "(j, m) \<in> set ?t4" by (rule merge_left_in)
  then have in3: "j \<in> set df_temp" by (rule merge_left_in)
  from in3 r show "base r \<in> set df_temp" by simp
  from merge_left_match[OF in4]
  show "case menu_part r of
           None \<Rightarrow> filter (\<lambda>m. cod_menu m = menu_cod (base r)) (df_menu self) = []
         | Some m \<Rightarrow> m \<in> set (df_menu self) \<and> cod_menu m = menu_cod (base r)"
    unfolding r by (simp split: option.splits)
  from merge_left_match[OF in5]
  show "case activite_part r of
           None \<Rightarrow> filter (\<lambda>a. cod_activ a = activ_cod (base r)) (df_activite self) = []
         | Some a \<Rightarrow> a \<in> set (df_activite self) \<and> cod_activ a = activ_cod (base r)"
    unfolding r by (simp split: option.splits)
  from merge_left_match[OF in6]
  show "case grille_part r of
           None \<Rightarrow> filter (\<lambda>g. cod_grille g = grille_cod (base r)) (df_grille self) = []
         | Some g \<Rightarrow> g \<in> set (df_grille self) \<and> cod_grille g = grille_cod (base r)"
    unfolding r by (simp split: option.splits)
qed

text \<open>
  C2, as amended: when no key value occurs twice in the right table, a left join returns
  exactly one row per left row, in order, paired with the right row of equal key or with
  the null marker \<open>None\<close>; so do the three left joins of \<open>merge_tables\<close> together. In
  general a left join repeats each left row once per right row of equal key, in left
  order and within one left row in right order, and once with \<open>None\<close> when no right row
  has its key: the row count is the sum over the left rows of the number of their
  matches, counted as 1 when there is none. So every left row is still present, the
  result has at least as many rows as the left table, a row carries \<open>None\<close> only when no
  right row has its key, and a right row only when their keys are equal. After the three
  joins of \<open>merge_tables\<close> each input row occurs as often as the product of its three
  match counts says.
\<close>

theorem merge_left_unique_keys:
  "(distinct (map right_on right) \<longrightarrow>
      length (merge_left left_on right_on left right) = length left
      \<and> merge_left left_on right_on left right =
          map (\<lambda>l. (l, find (\<lambda>r. right_on r = left_on l) right)) left)
   \<and> map fst (merge_left left_on right_on left right) =
       concat (map (\<lambda>l. replicate
                          (max 1 (length (filter (\<lambda>r. right_on r = left_on l) right))) l) left)
   \<and> map snd (merge_left left_on right_on left right) =
       concat (map (\<lambda>l. if filter (\<lambda>r. right_on r = left_on l) right = [] then [None]
                         else map Some (filter (\<lambda>r. right_on r = left_on l) right)) left)
   \<and> length (merge_left left_on right_on left right) =
       sum_list (map (\<lambda>l. max 1 (length (filter (\<lambda>r. right_on r = left_on l) right))) left)
   \<and> length left \<le> length (merge_left left_on right_on left right)
   \<and> fst ` set (merge_left left_on right_on left right) = set left
   \<and> (\<forall>(l, x) \<in> set (merge_left left_on right_on left right).
        case x of None \<Rightarrow> filter (\<lambda>r. right_on r = left_on l) right = []
                | Some r \<Rightarrow> r \<in> set right \<and> right_on r = left_on l)
   \<and> (distinct (map cod_menu (df_menu self)) \<and> distinct (map cod_activ (df_activite self))
        \<and> distinct (map cod_grille (df_grille self)) \<longrightarrow>
        length (df_merged (merge_tables self df_temp)) = length df_temp
        \<and> df_merged (merge_tables self df_temp) =
            map (\<lambda>j. \<lparr>base = j,
                menu_part = find (\<lambda>m. cod_menu m = menu_cod j) (df_menu self),
                activite_part = find (\<lambda>a. cod_activ a = activ_cod j) (df_activite self),
                grille_part = find (\<lambda>g. cod_grille g = grille_cod j) (df_grille self)\<rparr>) df_temp)
   \<and> map base (df_merged (merge_tables self df_temp)) =
       concat (map (\<lambda>j. replicate
          (max 1 (length (filter (\<lambda>m. cod_menu m = menu_cod j) (df_menu self)))
           * max 1 (length (filter (\<lambda>a. cod_activ a = activ_cod j) (df_activite self)))
           * max 1 (length (filter (\<lambda>g. cod_grille g = grille_cod j) (df_grille self)))) j) df_temp)
   \<and> length (df_merged (merge_tables self df_temp)) =
       sum_list (map (\<lambda>j.
          max 1 (length (filter (\<lambda>m. cod_menu m = menu_cod j) (df_menu self)))
           * max 1 (length (filter (\<lambda>a. cod_activ a = activ_cod j) (df_activite self)))
           * max 1 (length (filter (\<lambda>g. cod_grille g = grille_cod j) (df_grille self)))) df_temp)
   \<and> (\<forall>r \<in> set (df_merged (merge_tables self df_temp)).
        base r \<in> set df_temp
        \<and> (case menu_part r of
             None \<Rightarrow> filter (\<lambda>m. cod_menu m = menu_cod (base r)) (df_menu self) = []
           | Some m \<Rightarrow> m \<in> set (df_menu self) \<and> cod_menu m = menu_cod (base r))
        \<and> (case activite_part r of
             None \<Rightarrow> filter (\<lambda>a. cod_activ a = activ_cod (base r)) (df_activite self) = []
           | Some a \<Rightarrow> a \<in> set (df_activite self) \<and> cod_activ a = activ_cod (base r))
        \<and> (case grille_part r of
             None \<Rightarrow> filter (\<lambda>g. cod_grille g = grille_cod (base r)) (df_grille self) = []
           | Some g \<Rightarrow> g \<in> set (df_grille self) \<and> cod_grille g = grille_cod (base r)))"
proof -
  have a: "length (merge_left left_on right_on left right) = length left
      \<and> merge_left left_on right_on left right =
          map (\<lambda>l. (l, find (\<lambda>r. right_on r = left_on l) right)) left"
    if "distinct (map right_on right)"
    using merge_left_find[OF that, of left_on left] by simp
  have b: "length left \<le> length (merge_left left_on right_on left right)"
    by (rule merge_left_length_ge)
  have c: "fst ` set (merge_left left_on right_on left right) = set left"
    by (rule merge_left_set_fst)
  have d: "\<forall>(l, x) \<in> set (merge_left left_on right_on left right).
        case x of None \<Rightarrow> filter (\<lambda>r. right_on r = left_on l) right = []
                | Some r \<Rightarrow> r \<in> set right \<and> right_on r = left_on l"
    using merge_left_match[of _ _ left_on right_on left right] by blast
  have e: "length (df_merged (merge_tables self df_temp)) = length df_temp
        \<and> df_merged (merge_tables self df_temp) =
            map (\<lambda>j. \<lparr>base = j,
                menu_part = find (\<lambda>m. cod_menu m = menu_cod j) (df_menu self),
                activite_part = find (\<lambda>a. cod_activ a = activ_cod j) (df_activite self),
                grille_part = find (\<lambda>g. cod_grille g = grille_cod j) (df_grille self)\<rparr>) df_temp"
    if "distinct (map cod_menu (df_menu self))" "distinct (map cod_activ (df_activite self))"
       "distinct (map cod_grille (df_grille self))"
    using merge_tables_find[OF that, of df_temp] by simp
  have f: "\<forall>r \<in> set (df_merged (merge_tables self df_temp)).
        base r \<in> set df_temp
        \<and> (case menu_part r of
             None \<Rightarrow> filter (\<lambda>m. cod_menu m = menu_cod (base r)) (df_menu self) = []
           | Some m \<Rightarrow> m \<in> set (df_menu self) \<and> cod_menu m = menu_cod (base r))
        \<and> (case activite_part r of
             None \<Rightarrow> filter (\<lambda>a. cod_activ a = activ_cod (base r)) (df_activite self) = []
           | Some a \<Rightarrow> a \<in> set (df_activite self) \<and> cod_activ a = activ_cod (base r))
        \<and> (case grille_part r of
             None \<Rightarrow> filter (\<lambda>g. cod_grille g = grille_cod (base r)) (df_grille self) = []
           | Some g \<Rightarrow> g \<in> set (df_grille self) \<and> cod_grille g = grille_cod (base r))"
    using merge_tables_parts[of _ self df_temp] by blast
  note g = merge_left_fst[of left_on right_on left right]
    merge_left_snd[of left_on right_on left right]
    merge_left_length[of left_on right_on left right]
    merge_tables_base_rows[of self df_temp] merge_tables_length[of self df_temp]
  from a have a': "distinct (map right_on right) \<longrightarrow>
      length (merge_left left_on right_on left right) = length left
      \<and> merge_left left_on right_on left right =
          map (\<lambda>l. (l, find (\<lambda>r. right_on r = left_on l) right)) left"
    by (rule impI)
  from e have e': "distinct (map cod_menu (df_menu self)) \<and> distinct (map cod_activ (df_activite self))
        \<and> distinct (map cod_grille (df_grille self)) \<longrightarrow>
        length (df_merged (merge_tables self df_temp)) = length df_temp
        \<and> df_merged (merge_tables self df_temp) =
            map (\<lambda>j. \<lparr>base = j,
                menu_part = find (\<lambda>m. cod_menu m = menu_cod j) (df_menu self),
                activite_part = find (\<lambda>a. cod_activ a = activ_cod j) (df_activite self),
                grille_part = find (\<lambda>g. cod_grille g = grille_cod j) (df_grille self)\<rparr>) df_temp"
    by (intro impI) (elim conjE)
  show ?thesis by (intro conjI a' b c d e' f g)
qed

theorem merge_left_unique_keys_witness:
  "distinct (map cod_menu synthetic_tree)
   \<and> distinct (map cod_menu (df_menu synthetic_analyzer))
   \<and> distinct (map cod_activ (df_activite synthetic_analyzer))
   \<and> distinct (map cod_grille (df_grille synthetic_analyzer))
   \<and> merge_left menu_cod cod_menu [sample_row] synthetic_tree
        = [(sample_row, Some (synthetic_tree ! 1))]
   \<and> df_merged (merge_tables synthetic_analyzer [sample_row]) =
        [\<lparr>base = sample_row, menu_part = Some (synthetic_tree ! 1),
          activite_part = None, grille_part = None\<rparr>]
   \<and> map fst (merge_left menu_cod cod_menu [sample_row] (df_menu duplicate_menu_analyzer)) =
        [sample_row, sample_row]
   \<and> map snd (merge_left menu_cod cod_menu [sample_row] (df_menu duplicate_menu_analyzer)) =
        [Some \<lparr>cod_menu = 1, libelle = ''A'', cod_pere = Some 0\<rparr>,
         Some \<lparr>cod_menu = 1, libelle = ''B'', cod_pere = Some 0\<rparr>]
   \<and> map base (df_merged (merge_tables duplicate_menu_analyzer [sample_row])) =
        [sample_row, sample_row]"
proof -
  note unique = merge_left_unique_keys[of cod_menu synthetic_tree menu_cod "[sample_row]"
      synthetic_analyzer "[sample_row]"]
  note dup = merge_left_unique_keys[of cod_menu "df_menu duplicate_menu_analyzer" menu_cod
      "[sample_row]" duplicate_menu_analyzer "[sample_row]"]
  have d1: "distinct (map cod_menu synthetic_tree)" by (simp add: synthetic_tree_def)
  have d2: "distinct (map cod_menu (df_menu synthetic_analyzer))"
    by (simp add: synthetic_analyzer_def synthetic_tree_def)
  have d3: "distinct (map cod_activ (df_activite synthetic_analyzer))"
    by (simp add: synthetic_analyzer_def)
  have d4: "distinct (map cod_grille (df_grille synthetic_analyzer))"
    by (simp add: synthetic_analyzer_def)
  from d2 d3 d4 have d: "distinct (map cod_menu (df_menu synthetic_analyzer))
      \<and> distinct (map cod_activ (df_activite synthetic_analyzer))
      \<and> distinct (map cod_grille (df_grille synthetic_analyzer))"
    by simp
  note one = unique[THEN conjunct1, THEN mp, OF d1, THEN conjunct2]
  have a: "merge_left menu_cod cod_menu [sample_row] synthetic_tree
        = [(sample_row, Some (synthetic_tree ! 1))]"
    unfolding one by (simp add: synthetic_tree_def sample_row_def)
  note three = unique[THEN conjunct2, THEN conjunct2, THEN conjunct2, THEN conjunct2,
      THEN conjunct2, THEN conjunct2, THEN conjunct2, THEN conjunct1, THEN mp, OF d,
      THEN conjunct2]
  have b: "df_merged (merge_tables synthetic_analyzer [sample_row]) =
        [\<lparr>base = sample_row, menu_part = Some (synthetic_tree ! 1),
          activite_part = None, grille_part = None\<rparr>]"
    unfolding three by (simp add: synthetic_analyzer_def synthetic_tree_def sample_row_def)
  note lefts = dup[THEN conjunct2, THEN conjunct1]
  have c: "map fst (merge_left menu_cod cod_menu [sample_row] (df_menu duplicate_menu_analyzer)) =
        [sample_row, sample_row]"
    unfolding lefts by (simp add: duplicate_menu_analyzer_def sample_row_def)
  note rights = dup[THEN conjunct2, THEN conjunct2, THEN conjunct1]
  have e: "map snd (merge_left menu_cod cod_menu [sample_row] (df_menu duplicate_menu_analyzer)) =
        [Some \<lparr>cod_menu = 1, libelle = ''A'', cod_pere = Some 0\<rparr>,
         Some \<lparr>cod_menu = 1, libelle = ''B'', cod_pere = Some 0\<rparr>]"
    unfolding rights by (simp add: duplicate_menu_analyzer_def sample_row_def)
  note bases = dup[THEN conjunct2, THEN conjunct2, THEN conjunct2, THEN conjunct2,
      THEN conjunct2, THEN conjunct2, THEN conjunct2, THEN conjunct2, THEN conjunct1]
  have f: "map base (df_merged (merge_tables duplicate_menu_analyzer [sample_row])) =
        [sample_row, sample_row]"
    unfolding bases by (simp add: duplicate_menu_analyzer_def sample_row_def)
  show ?thesis by (intro conjI d1 d2 d3 d4 a b c e f)
qed

text \<open>
  C2 as stated fails: a menu table with two rows of code 1 turns the one left row into
  two rows, one for each of them.
\<close>

theorem merge_tables_left_join_counterexample:
  "df_merged (merge_tables duplicate_menu_analyzer [sample_row]) =
     [\<lparr>base = sample_row,
       menu_part = Some \<lparr>cod_menu = 1, libelle = ''A'', cod_pere = Some 0\<rparr>,
       activite_part = None, grille_part = None\<rparr>,
      \<lparr>base = sample_row,
       menu_part = Some \<lparr>cod_menu = 1, libelle = ''B'', cod_pere = Some 0\<rparr>,
       activite_part = None, grille_part = None\<rparr>]
   \<and> length (df_merged (merge_tables duplicate_menu_analyzer [sample_row])) = 2
   \<and> length (df_merged (merge_tables duplicate_menu_analyzer [sample_row])) \<noteq> length [sample_row]"
  by (simp add: merge_tables_def merge_left_def duplicate_menu_analyzer_def sample_row_def)

section \<open>Properties of the price evolution\<close>

lemma and_then_Inr:
  "and_then m f = Inr y \<longleftrightarrow> (\<exists>x. m = Inr x \<and> f x = Inr y)"
  by (cases m) (simp_all add: and_then_def)

lemma iloc0_Inr: "iloc0 xs = Inr x \<longleftrightarrow> xs \<noteq> [] \<and> x = hd xs"
  by (cases xs) (auto simp add: iloc0_def)

lemma iloc_last_Inr: "iloc_last xs = Inr x \<longleftrightarrow> xs \<noteq> [] \<and> x = last xs"
  by (auto simp add: iloc_last_def)

lemma unique_set: "set (unique xs) = set xs"
  by (induction xs rule: unique.induct) auto

lemma unique_distinct: "distinct (unique xs)"
  by (induction xs rule: unique.induct) (auto simp add: unique_set)

lemma loop_grilles_Inr:
  "loop_grilles self acte info df gs acc = Inr res \<Longrightarrow>
     res = acc @ concat (map (\<lambda>g. record_of (analyze_acte_grille self acte info df g)) gs)
     \<and> (\<forall>g\<in>set gs. \<exists>x. analyze_acte_grille self acte info df g = Inr x)"
proof (induction gs arbitrary: acc)
  case Nil
  then show ?case by simp
next
  case (Cons g gs)
  from Cons.prems obtain x where x: "analyze_acte_grille self acte info df g = Inr x"
    and rest: "loop_grilles self acte info df gs (case x of None \<Rightarrow> acc | Some r \<Rightarrow> acc @ [r]) = Inr res"
    by (auto simp add: and_then_Inr)
  from Cons.IH[OF rest] x show ?case
    by (cases x) (simp_all add: record_of_def)
qed

lemma loop_actes_Inr:
  "loop_actes self dfm actes acc = Inr res \<Longrightarrow>
     res = acc @ concat (map (\<lambda>a. concat (map (\<lambda>g. record_of
             (analyze_acte_grille self a (hd (filter (\<lambda>r. cod_acte (base r) = a) dfm))
                (filter (\<lambda>r. cod_acte (base r) = a) dfm) g)) grilles_filter)) actes)
     \<and> (\<forall>a\<in>set actes. \<forall>g\<in>set grilles_filter. \<exists>x.
           analyze_acte_grille self a (hd (filter (\<lambda>r. cod_acte (base r) = a) dfm))
                (filter (\<lambda>r. cod_acte (base r) = a) dfm) g = Inr x)"
proof (induction actes arbitrary: acc)
  case Nil
  then show ?case by simp
next
  case (Cons a actes)
  let ?df = "filter (\<lambda>r. cod_acte (base r) = a) dfm"
  from Cons.prems obtain info mid where info: "iloc0 ?df = Inr info"
    and mid: "loop_grilles self a info ?df grilles_filter acc = Inr mid"
    and rest: "loop_actes self dfm actes mid = Inr res"
    by (auto simp add: and_then_Inr Let_def)
  from info have hd: "info = hd ?df" by (simp add: iloc0_Inr)
  from loop_grilles_Inr[OF mid] Cons.IH[OF rest] hd show ?case
    by simp
qed

lemma filter_concat_key:
  "distinct xs \<Longrightarrow> (\<forall>x\<in>set xs. \<forall>e\<in>set (F x). key e = x) \<Longrightarrow>
     filter (\<lambda>e. key e = a) (concat (map F xs)) = (if a \<in> set xs then F a else [])"
proof (induction xs)
  case Nil
  then show ?case by simp
next
  case (Cons x xs)
  have keep: "filter (\<lambda>e. key e = a) (F x) = (if a = x then F x else [])"
    using Cons.prems(2) by (auto simp add: filter_empty_conv filter_id_conv)
  from Cons show ?case by (auto simp add: keep)
qed

lemma pct_value:
  "pct f l = Inr (if f \<noteq> 0 then (l - f) / f * 100 else 0)"
  by (simp add: pct_def truediv_def and_then_def)

lemma analyze_acte_grille_Some:
  assumes "analyze_acte_grille self a info df g = Inr (Some e)"
  defines "dfg \<equiv> filter (\<lambda>r. grille_cod (base r) = g) df"
  shows "dfg \<noteq> []"
    and "e_cod_acte e = a" and "e_grille_cod e = g"
    and "e_nom_court e = nom_court (base info)" and "e_nom_long e = nom_long (base info)"
    and "activite e = activ_cod (base info)" and "e_activite_libelle e = activite_libelle info"
    and "date_premiere_modif e = apdt_modif (base (hd (sort_values dfg)))"
    and "prix_initial e = pu_base (base (hd (sort_values dfg)))"
    and "date_derniere_modif e = apdt_modif (base (last (sort_values dfg)))"
    and "prix_actuel e = pu_base (base (last (sort_values dfg)))"
    and "evolution_euros e = prix_actuel e - prix_initial e"
    and "evolution_pct e = (if prix_initial e \<noteq> 0
           then (prix_actuel e - prix_initial e) / prix_initial e * 100 else 0)"
    and "nb_modifications e = length dfg"
proof -
  from assms(1) have ne: "dfg \<noteq> []"
    by (auto simp add: analyze_acte_grille_def Let_def dfg_def split: if_splits)
  with assms(1) obtain label where
    e: "e = \<lparr>e_cod_acte = a,
                     e_nom_court = nom_court (base info),
                     e_nom_long = nom_long (base info),
                     activite = activ_cod (base info),
                     e_activite_libelle = activite_libelle info,
                     e_grille_cod = g,
                     e_grille_libelle = label,
                     date_premiere_modif = apdt_modif (base (hd (sort_values dfg))),
                     prix_initial = pu_base (base (hd (sort_values dfg))),
                     date_derniere_modif = apdt_modif (base (last (sort_values dfg))),
                     prix_actuel = pu_base (base (last (sort_values dfg))),
                     evolution_euros = pu_base (base (last (sort_values dfg))) - pu_base (base (hd (sort_values dfg))),
                     evolution_pct = (if pu_base (base (hd (sort_values dfg))) \<noteq> 0
                        then (pu_base (base (last (sort_values dfg))) - pu_base (base (hd (sort_values dfg))))
                               / pu_base (base (hd (sort_values dfg))) * 100 else 0),
                     nb_modifications = length dfg\<rparr>"
    by (auto simp add: analyze_acte_grille_def Let_def dfg_def and_then_Inr iloc0_Inr iloc_last_Inr
        pct_value)
  show "dfg \<noteq> []" by (rule ne)
  show "e_cod_acte e = a" "e_grille_cod e = g"
    "e_nom_court e = nom_court (base info)" "e_nom_long e = nom_long (base info)"
    "activite e = activ_cod (base info)" "e_activite_libelle e = activite_libelle info"
    "date_premiere_modif e = apdt_modif (base (hd (sort_values dfg)))"
    "prix_initial e = pu_base (base (hd (sort_values dfg)))"
    "date_derniere_modif e = apdt_modif (base (last (sort_values dfg)))"
    "prix_actuel e = pu_base (base (last (sort_values dfg)))"
    "evolution_euros e = prix_actuel e - prix_initial e"
    "evolution_pct e = (if prix_initial e \<noteq> 0
           then (prix_actuel e - prix_initial e) / prix_initial e * 100 else 0)"
    "nb_modifications e = length dfg"
    by (simp_all add: e)
qed

lemma analyze_acte_grille_None:
  "analyze_acte_grille self a info df g = Inr None \<longleftrightarrow> filter (\<lambda>r. grille_cod (base r) = g) df = []"
  by (auto simp add: analyze_acte_grille_def Let_def and_then_def pct_value
      split: sum.splits if_splits)

lemma record_of_key:
  "e \<in> set (record_of (analyze_acte_grille self a info df g)) \<Longrightarrow>
     analyze_acte_grille self a info df g = Inr (Some e)"
  by (auto simp add: record_of_def split: sum.splits option.splits)

lemma grilles_filter_distinct: "distinct grilles_filter"
  by (simp add: grilles_filter_def)

lemma analyze_results:
  assumes "analyze_price_evolution_for_menu self code = Inr (Some results)"
  shows "results = concat (map (\<lambda>a. concat (map (\<lambda>g. record_of (step_of self code a g))
            grilles_filter)) (unique (map (\<lambda>r. cod_acte (base r)) (menu_rows self code))))"
    and "\<forall>a\<in>set (map (\<lambda>r. cod_acte (base r)) (menu_rows self code)).
           \<forall>g\<in>set grilles_filter. \<exists>x. step_of self code a g = Inr x"
proof -
  from assms have loop: "loop_actes self (menu_rows self code)
      (unique (map (\<lambda>r. cod_acte (base r)) (menu_rows self code))) [] = Inr results"
    by (auto simp add: analyze_price_evolution_for_menu_def Let_def menu_rows_def and_then_Inr
        split: if_splits)
  from loop_actes_Inr[OF loop]
  show "results = concat (map (\<lambda>a. concat (map (\<lambda>g. record_of (step_of self code a g))
            grilles_filter)) (unique (map (\<lambda>r. cod_acte (base r)) (menu_rows self code))))"
    by (simp add: step_of_def acte_rows_def)
  from loop_actes_Inr[OF loop]
  show "\<forall>a\<in>set (map (\<lambda>r. cod_acte (base r)) (menu_rows self code)).
           \<forall>g\<in>set grilles_filter. \<exists>x. step_of self code a g = Inr x"
    by (simp add: step_of_def acte_rows_def unique_set)
qed

lemma analyze_member:
  assumes "analyze_price_evolution_for_menu self code = Inr (Some results)"
    and "e \<in> set results"
  shows "\<exists>a g. g \<in> set grilles_filter \<and> step_of self code a g = Inr (Some e)"
proof -
  from analyze_results(1)[OF assms(1)] assms(2)
  obtain a g where "g \<in> set grilles_filter" "e \<in> set (record_of (step_of self code a g))"
    by auto
  then show ?thesis
    unfolding step_of_def by (blast dest: record_of_key)
qed

lemma analyze_pair:
  assumes res: "analyze_price_evolution_for_menu self code = Inr (Some results)"
    and g: "g \<in> set grilles_filter"
    and rows: "acte_grille_rows self code a g \<noteq> []"
  shows "\<exists>e. filter (\<lambda>e. e_cod_acte e = a \<and> e_grille_cod e = g) results = [e]
            \<and> step_of self code a g = Inr (Some e)"
proof -
  let ?actes = "unique (map (\<lambda>r. cod_acte (base r)) (menu_rows self code))"
  let ?G = "\<lambda>a g. record_of (step_of self code a g)"
  let ?F = "\<lambda>a. concat (map (?G a) grilles_filter)"
  from rows have "acte_rows self code a \<noteq> []"
    by (auto simp add: acte_grille_rows_def)
  then have a: "a \<in> set (map (\<lambda>r. cod_acte (base r)) (menu_rows self code))"
    by (auto simp add: acte_rows_def filter_empty_conv)
  with analyze_results(2)[OF res] g obtain x where x: "step_of self code a g = Inr x"
    by blast
  with rows obtain e where e: "step_of self code a g = Inr (Some e)"
    by (cases x) (auto simp add: step_of_def analyze_acte_grille_None acte_grille_rows_def)
  have keyG: "\<forall>g'\<in>set grilles_filter. \<forall>e'\<in>set (?G a' g'). e_grille_cod e' = g'" for a'
    unfolding step_of_def by (blast dest: record_of_key analyze_acte_grille_Some(3))
  have keyF: "\<forall>a'\<in>set ?actes. \<forall>e'\<in>set (?F a'). e_cod_acte e' = a'"
    unfolding step_of_def by (auto dest!: record_of_key analyze_acte_grille_Some(2))
  have "filter (\<lambda>e. e_cod_acte e = a \<and> e_grille_cod e = g) results
        = filter (\<lambda>e. e_grille_cod e = g) (filter (\<lambda>e. e_cod_acte e = a) results)"
    by (simp add: conj_commute)
  also have "filter (\<lambda>e. e_cod_acte e = a) results = ?F a"
    using filter_concat_key[OF unique_distinct keyF, of a] a analyze_results(1)[OF res]
    by (simp add: unique_set)
  also have "filter (\<lambda>e. e_grille_cod e = g) (?F a) = ?G a g"
    using filter_concat_key[OF grilles_filter_distinct keyG[of a], of g] g by simp
  also have "\<dots> = [e]" using e by (simp add: record_of_def)
  finally show ?thesis using e by blast
qed

lemma sort_values_mset: "mset (sort_values df) = mset df"
  by (simp add: sort_values_def)

lemma sort_values_Nil: "sort_values df = [] \<longleftrightarrow> df = []"
  using sort_values_mset[of df] by (metis mset_zero_iff)

lemma dated_sorted:
  assumes "sorted_wrt (\<lambda>x y. date_key x \<le> date_key y) xs"
    and "\<forall>x\<in>set xs. apdt_modif (base x) \<noteq> None"
  shows "sorted_wrt (\<lambda>x y. date_before (apdt_modif (base x)) (apdt_modif (base y))) xs"
proof (rule sorted_wrt_mono_rel[OF _ assms(1)])
  fix x y
  assume "x \<in> set xs" "y \<in> set xs" "date_key x \<le> date_key y"
  with assms(2) obtain s t where "apdt_modif (base x) = Some s" "apdt_modif (base y) = Some t"
    by blast
  with \<open>date_key x \<le> date_key y\<close>
  show "date_before (apdt_modif (base x)) (apdt_modif (base y))"
    by (simp add: date_before_def date_key_def)
qed

lemma undated_sorted:
  "\<forall>x\<in>set xs. apdt_modif (base x) = None \<Longrightarrow>
     sorted_wrt (\<lambda>x y. date_before (apdt_modif (base x)) (apdt_modif (base y))) xs"
  by (induction xs) (simp_all add: date_before_def)

lemma sort_values_sorted:
  "sorted_wrt (\<lambda>x y. date_before (apdt_modif (base x)) (apdt_modif (base y))) (sort_values df)"
proof -
  let ?dated = "filter (\<lambda>r. apdt_modif (base r) \<noteq> None) df"
  let ?undated = "filter (\<lambda>r. apdt_modif (base r) = None) df"
  have "sorted (map date_key (sort_key date_key ?dated))" by simp
  then have "sorted_wrt (\<lambda>x y. date_key x \<le> date_key y) (sort_key date_key ?dated)"
    by (simp only: sorted_map)
  moreover have "\<forall>x\<in>set (sort_key date_key ?dated). apdt_modif (base x) \<noteq> None" by simp
  ultimately have a: "sorted_wrt (\<lambda>x y. date_before (apdt_modif (base x)) (apdt_modif (base y)))
      (sort_key date_key ?dated)"
    by (rule dated_sorted)
  have b: "sorted_wrt (\<lambda>x y. date_before (apdt_modif (base x)) (apdt_modif (base y))) ?undated"
    by (rule undated_sorted) simp
  have c: "\<forall>x\<in>set (sort_key date_key ?dated). \<forall>y\<in>set ?undated.
      date_before (apdt_modif (base x)) (apdt_modif (base y))"
    by (simp add: date_before_def)
  from a b c show ?thesis
    unfolding sort_values_def sorted_wrt_append by blast
qed

lemma and_then_Inl:
  "and_then m f = Inl e \<longleftrightarrow> m = Inl e \<or> (\<exists>x. m = Inr x \<and> f x = Inl e)"
  by (cases m) (simp_all add: and_then_def)

lemma iloc0_Inl: "iloc0 xs = Inl e \<longleftrightarrow> xs = [] \<and> e = IndexError"
  by (cases xs) (auto simp add: iloc0_def)

lemma iloc_last_Inl: "iloc_last xs = Inl e \<longleftrightarrow> xs = [] \<and> e = IndexError"
  by (auto simp add: iloc_last_def)

lemma lookup_grille_libelle_Inl:
  "lookup_grille_libelle self info g = Inl e \<longleftrightarrow>
     g \<noteq> grille_cod (base info) \<and> filter (\<lambda>r. cod_grille r = g) (df_grille self) = []
     \<and> e = IndexError"
  by (auto simp add: lookup_grille_libelle_def and_then_Inl iloc0_Inl)

lemma analyze_acte_grille_Inl:
  "analyze_acte_grille self a info df g = Inl e \<longleftrightarrow>
     filter (\<lambda>r. grille_cod (base r) = g) df \<noteq> [] \<and> g \<noteq> grille_cod (base info)
     \<and> filter (\<lambda>r. cod_grille r = g) (df_grille self) = [] \<and> e = IndexError"
  by (auto simp add: analyze_acte_grille_def Let_def and_then_Inl iloc0_Inl iloc_last_Inl
      iloc0_Inr iloc_last_Inr lookup_grille_libelle_Inl pct_value sort_values_Nil)

lemma loop_grilles_Inl:
  "loop_grilles self a info df gs acc = Inl e \<Longrightarrow>
     e = IndexError \<and> (\<exists>g\<in>set gs. analyze_acte_grille self a info df g = Inl IndexError)"
proof (induction gs arbitrary: acc)
  case Nil
  then show ?case by simp
next
  case (Cons g gs)
  then show ?case
    by (auto simp add: and_then_Inl analyze_acte_grille_Inl)
qed


lemma loop_actes_Inl:
  "loop_actes self dfm actes acc = Inl e \<Longrightarrow> \<forall>a\<in>set actes. filter (\<lambda>r. cod_acte (base r) = a) dfm \<noteq> [] \<Longrightarrow>
     e = IndexError \<and> (\<exists>a\<in>set actes. \<exists>g\<in>set grilles_filter.
        analyze_acte_grille self a (hd (filter (\<lambda>r. cod_acte (base r) = a) dfm))
          (filter (\<lambda>r. cod_acte (base r) = a) dfm) g = Inl IndexError)"
proof (induction actes arbitrary: acc)
  case Nil
  then show ?case by simp
next
  case (Cons a actes)
  let ?df = "filter (\<lambda>r. cod_acte (base r) = a) dfm"
  from Cons.prems(2) have info: "iloc0 ?df = Inr (hd ?df)" by (simp add: iloc0_Inr)
  from Cons.prems(1) info
  consider (here) "loop_grilles self a (hd ?df) ?df grilles_filter acc = Inl e"
    | (later) mid where "loop_actes self dfm actes mid = Inl e"
    by (auto simp add: and_then_Inl Let_def)
  then show ?case
  proof cases
    case here
    from loop_grilles_Inl[OF here] show ?thesis by auto
  next
    case later
    from Cons.IH[OF later] Cons.prems(2) show ?thesis by auto
  qed
qed


lemma menu_actes_nonempty:
  "\<forall>a\<in>set (unique (map (\<lambda>r. cod_acte (base r)) dfm)). filter (\<lambda>r. cod_acte (base r) = a) dfm \<noteq> []"
  by (auto simp add: unique_set filter_empty_conv)

lemma analyze_Inl:
  assumes "analyze_price_evolution_for_menu self code = Inl e"
  shows "e = IndexError"
proof -
  from assms have "loop_actes self (menu_rows self code)
      (unique (map (\<lambda>r. cod_acte (base r)) (menu_rows self code))) [] = Inl e"
    by (auto simp add: analyze_price_evolution_for_menu_def Let_def menu_rows_def and_then_Inl
        split: if_splits)
  from loop_actes_Inl[OF this menu_actes_nonempty] show ?thesis by simp
qed


lemmas analysis_defs =
  analyze_price_evolution_for_menu_def analyze_acte_grille_def sort_values_def date_key_def
  iloc0_def iloc_last_def and_then_def lookup_grille_libelle_def pct_def truediv_def
  grilles_filter_def grille_libelle_def activite_libelle_def Let_def entity_row_def
  grille_table_def menu_rows_def acte_rows_def acte_grille_rows_def




lemma zero_price_result:
  "analyze_price_evolution_for_menu zero_price_analyzer 1 =
     Inr (Some [\<lparr>e_cod_acte = ''100'', e_nom_court = ''X'', e_nom_long = ''X'', activite = 1,
                 e_activite_libelle = None, e_grille_cod = 3, e_grille_libelle = Some ''G3'',
                 date_premiere_modif = Some 18262, prix_initial = 0,
                 date_derniere_modif = Some 18993, prix_actuel = 5,
                 evolution_euros = 5, evolution_pct = 0, nb_modifications = 2\<rparr>])"
  by (simp add: zero_price_analyzer_def analysis_defs)

lemma two_activity_result:
  "analyze_price_evolution_for_menu two_activity_analyzer 1 =
     Inr (Some [\<lparr>e_cod_acte = ''100'', e_nom_court = ''X'', e_nom_long = ''X'', activite = 1,
                 e_activite_libelle = None, e_grille_cod = 3, e_grille_libelle = Some ''G3'',
                 date_premiere_modif = Some 18262, prix_initial = 10,
                 date_derniere_modif = Some 18262, prix_actuel = 10,
                 evolution_euros = 0, evolution_pct = 0, nb_modifications = 1\<rparr>,
                \<lparr>e_cod_acte = ''100'', e_nom_court = ''X'', e_nom_long = ''X'', activite = 1,
                 e_activite_libelle = None, e_grille_cod = 4, e_grille_libelle = Some ''G4'',
                 date_premiere_modif = Some 18993, prix_initial = 12,
                 date_derniere_modif = Some 18993, prix_actuel = 12,
                 evolution_euros = 0, evolution_pct = 0, nb_modifications = 1\<rparr>])"
  by (simp add: two_activity_analyzer_def analysis_defs)




text \<open>The first row of a sorted frame is a row of the frame with the earliest timestamp.\<close>

lemma sort_values_hd_earliest:
  assumes "df \<noteq> []"
  shows "hd (sort_values df) \<in> set df"
    and "\<forall>r\<in>set df. date_before (apdt_modif (base (hd (sort_values df)))) (apdt_modif (base r))"
proof -
  from assms have "sort_values df \<noteq> []" by (simp add: sort_values_Nil)
  then obtain x xs where s: "sort_values df = x # xs" by (cases "sort_values df") auto
  have sets: "set (sort_values df) = set df"
    using sort_values_mset[of df] by (rule mset_eq_setD)
  from s sets show "hd (sort_values df) \<in> set df" by auto
  have refl: "date_before (apdt_modif (base x)) (apdt_modif (base x))"
    by (simp add: date_before_def split: option.splits)
  from sort_values_sorted[of df] s
  have "\<forall>y\<in>set xs. date_before (apdt_modif (base x)) (apdt_modif (base y))" by simp
  with refl have "\<forall>y\<in>set (x # xs). date_before (apdt_modif (base x)) (apdt_modif (base y))"
    by simp
  with s sets
  show "\<forall>r\<in>set df. date_before (apdt_modif (base (hd (sort_values df)))) (apdt_modif (base r))"
    by simp
qed

text \<open>
  C3: the first recorded price of a series is the price of the first of its rows sorted
  by timestamp ascending (\<open>NaT\<close> last), a row of the series whose timestamp no other row
  precedes. The record of every entity and allow-listed grid whose first recorded price
  is 0 has \<open>prix_initial\<close> 0 and \<open>evolution_pct\<close> 0, whatever the last price, which it
  reports as \<open>prix_actuel\<close>; and every record whose \<open>prix_initial\<close> is 0 has \<open>evolution_pct\<close>
  0. The percentage expression never raises, and the function never raises
  \<open>ZeroDivisionError\<close>.
\<close>

theorem zero_first_price_pct:
  "(analyze_price_evolution_for_menu self code = Inr (Some results)
      \<and> e \<in> set results \<and> prix_initial e = 0 \<longrightarrow> evolution_pct e = 0)
   \<and> (analyze_price_evolution_for_menu self code = Inr (Some results)
        \<and> g \<in> set grilles_filter \<and> acte_grille_rows self code a g \<noteq> []
        \<and> pu_base (base (hd (sort_values (acte_grille_rows self code a g)))) = 0 \<longrightarrow>
        (\<exists>r. filter (\<lambda>e. e_cod_acte e = a \<and> e_grille_cod e = g) results = [r]
           \<and> prix_initial r = 0
           \<and> prix_actuel r = pu_base (base (last (sort_values (acte_grille_rows self code a g))))
           \<and> evolution_pct r = 0))
   \<and> acte_grille_rows self code a g =
       filter (\<lambda>r. menu_cod (base r) = code \<and> cod_acte (base r) = a \<and> grille_cod (base r) = g)
         (df_merged self)
   \<and> (df \<noteq> [] \<longrightarrow>
        hd (sort_values df) \<in> set df
        \<and> (\<forall>r\<in>set df. date_before (apdt_modif (base (hd (sort_values df))))
                          (apdt_modif (base r))))
   \<and> sorted_wrt (\<lambda>x y. date_before (apdt_modif (base x)) (apdt_modif (base y))) (sort_values df)
   \<and> mset (sort_values df) = mset df
   \<and> pct 0 last_pu = Inr 0
   \<and> (\<exists>p. pct first_pu last_pu = Inr p)
   \<and> analyze_price_evolution_for_menu self code \<noteq> Inl ZeroDivisionError"
proof -
  have member: "evolution_pct e = 0"
    if "analyze_price_evolution_for_menu self code = Inr (Some results)" "e \<in> set results"
      "prix_initial e = 0"
  proof -
    from analyze_member[OF that(1,2)] obtain a' g'
      where "analyze_acte_grille self a' (hd (acte_rows self code a')) (acte_rows self code a') g'
               = Inr (Some e)"
      unfolding step_of_def by blast
    from analyze_acte_grille_Some(13)[OF this] that(3) show ?thesis by simp
  qed
  have pair: "\<exists>r. filter (\<lambda>e. e_cod_acte e = a \<and> e_grille_cod e = g) results = [r]
           \<and> prix_initial r = 0
           \<and> prix_actuel r = pu_base (base (last (sort_values (acte_grille_rows self code a g))))
           \<and> evolution_pct r = 0"
    if res: "analyze_price_evolution_for_menu self code = Inr (Some results)"
      and g: "g \<in> set grilles_filter" and rows: "acte_grille_rows self code a g \<noteq> []"
      and zero: "pu_base (base (hd (sort_values (acte_grille_rows self code a g)))) = 0"
  proof -
    from analyze_pair[OF res g rows] obtain r
      where one: "filter (\<lambda>e. e_cod_acte e = a \<and> e_grille_cod e = g) results = [r]"
        and step: "analyze_acte_grille self a (hd (acte_rows self code a)) (acte_rows self code a) g
                     = Inr (Some r)"
      unfolding step_of_def by blast
    note f = analyze_acte_grille_Some[OF step, folded acte_grille_rows_def]
    from f(9) zero have init: "prix_initial r = 0" by simp
    with f(13) have "evolution_pct r = 0" by simp
    with one init f(11) show ?thesis by blast
  qed
  have rows: "acte_grille_rows self code a g =
       filter (\<lambda>r. menu_cod (base r) = code \<and> cod_acte (base r) = a \<and> grille_cod (base r) = g)
         (df_merged self)"
    by (simp add: acte_grille_rows_def acte_rows_def menu_rows_def conj_commute conj_left_commute)
  have earliest: "hd (sort_values df) \<in> set df
        \<and> (\<forall>r\<in>set df. date_before (apdt_modif (base (hd (sort_values df))))
                          (apdt_modif (base r)))"
    if "df \<noteq> []"
    using sort_values_hd_earliest[OF that] by blast
  have zero: "pct 0 last_pu = Inr 0" by (simp add: pct_value)
  have total: "\<exists>p. pct first_pu last_pu = Inr p" by (simp add: pct_value)
  have noraise: "analyze_price_evolution_for_menu self code \<noteq> Inl ZeroDivisionError"
    using analyze_Inl[of self code ZeroDivisionError] by auto
  from member pair rows earliest sort_values_sorted[of df] sort_values_mset[of df]
    zero total noraise
  show ?thesis by blast
qed

theorem zero_first_price_pct_witness:
  "analyze_price_evolution_for_menu zero_price_analyzer 1 =
     Inr (Some [\<lparr>e_cod_acte = ''100'', e_nom_court = ''X'', e_nom_long = ''X'', activite = 1,
                 e_activite_libelle = None, e_grille_cod = 3, e_grille_libelle = Some ''G3'',
                 date_premiere_modif = Some 18262, prix_initial = 0,
                 date_derniere_modif = Some 18993, prix_actuel = 5,
                 evolution_euros = 5, evolution_pct = 0, nb_modifications = 2\<rparr>])
   \<and> (3::int) \<in> set grilles_filter
   \<and> acte_grille_rows zero_price_analyzer 1 ''100'' 3 =
       [entity_row 3 1 5 18993, entity_row 3 1 0 18262]
   \<and> sort_values (acte_grille_rows zero_price_analyzer 1 ''100'' 3) =
       [entity_row 3 1 0 18262, entity_row 3 1 5 18993]
   \<and> pu_base (base (hd (sort_values (acte_grille_rows zero_price_analyzer 1 ''100'' 3)))) = 0
   \<and> pu_base (base (last (sort_values (acte_grille_rows zero_price_analyzer 1 ''100'' 3)))) = 5
   \<and> (\<exists>r. filter (\<lambda>e. e_cod_acte e = ''100'' \<and> e_grille_cod e = 3)
             [\<lparr>e_cod_acte = ''100'', e_nom_court = ''X'', e_nom_long = ''X'', activite = 1,
               e_activite_libelle = None, e_grille_cod = 3, e_grille_libelle = Some ''G3'',
               date_premiere_modif = Some 18262, prix_initial = 0,
               date_derniere_modif = Some 18993, prix_actuel = 5,
               evolution_euros = 5, evolution_pct = 0, nb_modifications = 2\<rparr>] = [r]
         \<and> prix_initial r = 0 \<and> prix_actuel r = 5 \<and> evolution_pct r = 0)"
proof -
  let ?rows = "acte_grille_rows zero_price_analyzer 1 ''100'' 3"
  have g: "(3::int) \<in> set grilles_filter" by (simp add: grilles_filter_def)
  have rows: "?rows = [entity_row 3 1 5 18993, entity_row 3 1 0 18262]"
    by (simp add: zero_price_analyzer_def menu_rows_def acte_rows_def acte_grille_rows_def
        entity_row_def)
  have sorted_rows: "sort_values ?rows = [entity_row 3 1 0 18262, entity_row 3 1 5 18993]"
    unfolding rows by (simp add: sort_values_def date_key_def entity_row_def)
  have nonempty: "?rows \<noteq> []" unfolding rows by simp
  have first: "pu_base (base (hd (sort_values ?rows))) = 0"
    unfolding sorted_rows by (simp add: entity_row_def)
  have last: "pu_base (base (last (sort_values ?rows))) = 5"
    unfolding sorted_rows by (simp add: entity_row_def)
  from zero_price_result g nonempty first
    zero_first_price_pct[of zero_price_analyzer 1 _ _ 3 "''100''"]
  obtain r where r: "filter (\<lambda>e. e_cod_acte e = ''100'' \<and> e_grille_cod e = 3)
             [\<lparr>e_cod_acte = ''100'', e_nom_court = ''X'', e_nom_long = ''X'', activite = 1,
               e_activite_libelle = None, e_grille_cod = 3, e_grille_libelle = Some ''G3'',
               date_premiere_modif = Some 18262, prix_initial = 0,
               date_derniere_modif = Some 18993, prix_actuel = 5,
               evolution_euros = 5, evolution_pct = 0, nb_modifications = 2\<rparr>] = [r]"
       "prix_initial r = 0"
       "prix_actuel r = pu_base (base (last (sort_values ?rows)))"
       "evolution_pct r = 0"
    by blast
  from r(3) last have "prix_actuel r = 5" by simp
  with r(1,2,4) zero_price_result g rows sorted_rows first last show ?thesis by blast
qed

text \<open>
  C10: every record of the returned frame takes \<open>nom_court\<close>, \<open>nom_long\<close>, \<open>activite\<close> and
  \<open>activite_libelle\<close> from the first of the rows of its entity in the menu, so two records
  of one entity agree on these four fields, whichever grids they summarise.
\<close>

theorem entity_fields_from_first_row:
  "(analyze_price_evolution_for_menu self code = Inr (Some results) \<and> e \<in> set results \<longrightarrow>
      acte_rows self code (e_cod_acte e) \<noteq> []
      \<and> e_nom_court e = nom_court (base (hd (acte_rows self code (e_cod_acte e))))
      \<and> e_nom_long e = nom_long (base (hd (acte_rows self code (e_cod_acte e))))
      \<and> activite e = activ_cod (base (hd (acte_rows self code (e_cod_acte e))))
      \<and> e_activite_libelle e = activite_libelle (hd (acte_rows self code (e_cod_acte e))))
   \<and> (analyze_price_evolution_for_menu self code = Inr (Some results)
        \<and> e \<in> set results \<and> e' \<in> set results \<and> e_cod_acte e = e_cod_acte e' \<longrightarrow>
        e_nom_court e = e_nom_court e' \<and> e_nom_long e = e_nom_long e'
        \<and> activite e = activite e' \<and> e_activite_libelle e = e_activite_libelle e')
   \<and> acte_rows self code a =
       filter (\<lambda>r. menu_cod (base r) = code \<and> cod_acte (base r) = a) (df_merged self)"
proof -
  have member: "acte_rows self code (e_cod_acte e) \<noteq> []
      \<and> e_nom_court e = nom_court (base (hd (acte_rows self code (e_cod_acte e))))
      \<and> e_nom_long e = nom_long (base (hd (acte_rows self code (e_cod_acte e))))
      \<and> activite e = activ_cod (base (hd (acte_rows self code (e_cod_acte e))))
      \<and> e_activite_libelle e = activite_libelle (hd (acte_rows self code (e_cod_acte e)))"
    if "analyze_price_evolution_for_menu self code = Inr (Some results)" "e \<in> set results"
    for e
  proof -
    from analyze_member[OF that] obtain a' g'
      where step: "analyze_acte_grille self a' (hd (acte_rows self code a')) (acte_rows self code a') g'
               = Inr (Some e)"
      unfolding step_of_def by blast
    note f = analyze_acte_grille_Some[OF step]
    from f(1) have "acte_rows self code a' \<noteq> []" by auto
    with f(2) f(4) f(5) f(6) f(7) show ?thesis by simp
  qed
  have same: "e_nom_court e = e_nom_court e' \<and> e_nom_long e = e_nom_long e'
        \<and> activite e = activite e' \<and> e_activite_libelle e = e_activite_libelle e'"
    if "analyze_price_evolution_for_menu self code = Inr (Some results)"
      "e \<in> set results" "e' \<in> set results" "e_cod_acte e = e_cod_acte e'"
    using member[OF that(1,2)] member[OF that(1,3)] that(4) by simp
  have rows: "acte_rows self code a =
       filter (\<lambda>r. menu_cod (base r) = code \<and> cod_acte (base r) = a) (df_merged self)"
    by (simp add: acte_rows_def menu_rows_def conj_commute)
  from member[of e] same rows show ?thesis by blast
qed

theorem entity_fields_from_first_row_witness:
  "(\<exists>results e e'. analyze_price_evolution_for_menu two_activity_analyzer 1 = Inr (Some results)
      \<and> e \<in> set results \<and> e' \<in> set results \<and> e_cod_acte e = e_cod_acte e'
      \<and> e_grille_cod e = 3 \<and> e_grille_cod e' = 4
      \<and> map (\<lambda>r. activ_cod (base r)) (acte_rows two_activity_analyzer 1 ''100'') = [1, 2]
      \<and> activite e = 1 \<and> activite e' = 1
      \<and> e_nom_court e = e_nom_court e' \<and> e_nom_long e = e_nom_long e'
      \<and> activite e = activite e' \<and> e_activite_libelle e = e_activite_libelle e')"
proof -
  let ?e = "\<lparr>e_cod_acte = ''100'', e_nom_court = ''X'', e_nom_long = ''X'', activite = 1,
                 e_activite_libelle = None, e_grille_cod = 3, e_grille_libelle = Some ''G3'',
                 date_premiere_modif = Some 18262, prix_initial = 10,
                 date_derniere_modif = Some 18262, prix_actuel = 10,
                 evolution_euros = 0, evolution_pct = 0, nb_modifications = 1\<rparr>"
  let ?e' = "\<lparr>e_cod_acte = ''100'', e_nom_court = ''X'', e_nom_long = ''X'', activite = 1,
                 e_activite_libelle = None, e_grille_cod = 4, e_grille_libelle = Some ''G4'',
                 date_premiere_modif = Some 18993, prix_initial = 12,
                 date_derniere_modif = Some 18993, prix_actuel = 12,
                 evolution_euros = 0, evolution_pct = 0, nb_modifications = 1\<rparr>"
  have res: "analyze_price_evolution_for_menu two_activity_analyzer 1 = Inr (Some [?e, ?e'])"
    by (rule two_activity_result)
  have mem: "?e \<in> set [?e, ?e']" "?e' \<in> set [?e, ?e']" by simp_all
  have key: "e_cod_acte ?e = e_cod_acte ?e'" by simp
  have acts: "map (\<lambda>r. activ_cod (base r)) (acte_rows two_activity_analyzer 1 ''100'') = [1, 2]"
    by (simp add: two_activity_analyzer_def analysis_defs)
  from res mem key
    entity_fields_from_first_row[of two_activity_analyzer 1 "[?e, ?e']" ?e ?e']
  have "e_nom_court ?e = e_nom_court ?e' \<and> e_nom_long ?e = e_nom_long ?e'
        \<and> activite ?e = activite ?e' \<and> e_activite_libelle ?e = e_activite_libelle ?e'"
    by blast
  with res mem key acts show ?thesis
    by (intro exI[of _ "[?e, ?e']"] exI[of _ ?e] exI[of _ ?e']) simp
qed

section \<open>Properties of the spreadsheet export\<close>

lemma digit_char_code: "d < 10 \<Longrightarrow> (of_char (digit_char d) :: nat) = 48 + d"
proof -
  assume "d < 10"
  then have "d \<in> set [0, 1, 2, 3, 4, 5, 6, 7, 8, 9]" by (simp) arith
  then show ?thesis by (auto simp add: digit_char_def)
qed


lemma digit_char_inj:
  assumes "a < 10" "b < 10" "digit_char a = digit_char b"
  shows "a = b"
proof -
  have "(of_char (digit_char a) :: nat) = of_char (digit_char b)"
    by (simp only: assms(3))
  then have "48 + a = 48 + b"
    by (simp only: digit_char_code[OF assms(1)] digit_char_code[OF assms(2)])
  then show ?thesis by (simp only: add_left_cancel)
qed

lemma str_nat_nonempty: "str_nat n \<noteq> []"
  by (subst str_nat.simps) simp

lemma str_nat_unfold_small: "n < 10 \<Longrightarrow> str_nat n = [digit_char n]"
  by (subst str_nat.simps) simp

lemma str_nat_unfold_big:
  "\<not> n < 10 \<Longrightarrow> str_nat n = str_nat (n div 10) @ [digit_char (n mod 10)]"
  by (subst str_nat.simps) simp

lemma str_nat_chars: "c \<in> set (str_nat n) \<Longrightarrow> \<exists>d<10. c = digit_char d"
proof (induction n rule: str_nat.induct)
  case (1 n)
  show ?case
  proof (cases "n < 10")
    case True
    with "1.prems" show ?thesis by (auto simp add: str_nat_unfold_small)
  next
    case False
    from "1.prems" False have "c \<in> set (str_nat (n div 10)) \<or> c = digit_char (n mod 10)"
      by (auto simp add: str_nat_unfold_big)
    then show ?thesis
    proof
      assume "c \<in> set (str_nat (n div 10))"
      with "1.IH"[OF False] show ?thesis by blast
    next
      assume "c = digit_char (n mod 10)"
      moreover have "n mod 10 < 10" by simp
      ultimately show ?thesis by blast
    qed
  qed
qed

lemma str_nat_inj: "str_nat n = str_nat m \<Longrightarrow> n = m"
proof (induction n arbitrary: m rule: str_nat.induct)
  case (1 n)
  show ?case
  proof (cases "n < 10")
    case n: True
    show ?thesis
    proof (cases "m < 10")
      case True
      from "1.prems" have "digit_char n = digit_char m"
        by (simp only: str_nat_unfold_small[OF n] str_nat_unfold_small[OF True] list.inject)
      with n True show ?thesis by (rule digit_char_inj)
    next
      case False
      from "1.prems" have "[digit_char n] = str_nat (m div 10) @ [digit_char (m mod 10)]"
        by (simp only: str_nat_unfold_small[OF n] str_nat_unfold_big[OF False])
      then have "str_nat (m div 10) = []" by simp
      with str_nat_nonempty show ?thesis by blast
    qed
  next
    case n: False
    show ?thesis
    proof (cases "m < 10")
      case True
      from "1.prems" have "str_nat (n div 10) @ [digit_char (n mod 10)] = [digit_char m]"
        by (simp only: str_nat_unfold_small[OF True] str_nat_unfold_big[OF n])
      then have "str_nat (n div 10) = []" by simp
      with str_nat_nonempty show ?thesis by blast
    next
      case False
      from "1.prems" have "str_nat (n div 10) @ [digit_char (n mod 10)]
          = str_nat (m div 10) @ [digit_char (m mod 10)]"
        by (simp only: str_nat_unfold_big[OF False] str_nat_unfold_big[OF n])
      then have eq: "str_nat (n div 10) = str_nat (m div 10)"
        and d: "digit_char (n mod 10) = digit_char (m mod 10)"
        by simp_all
      from "1.IH"[OF n eq] have q: "n div 10 = m div 10" .
      have "n mod 10 < 10" "m mod 10 < 10" by simp_all
      from digit_char_inj[OF this d] have r: "n mod 10 = m mod 10" .
      from q r show ?thesis by (metis div_mult_mod_eq)
    qed
  qed
qed

lemma digit_char_not_sep:
  assumes "d < 10"
  shows "digit_char d \<noteq> CHR ''_''" and "digit_char d \<noteq> CHR ''-''"
    and "digit_char d \<noteq> CHR ''.''"
proof -
  have "d \<in> set [0, 1, 2, 3, 4, 5, 6, 7, 8, 9]" using assms by (simp) arith
  then show "digit_char d \<noteq> CHR ''_''" and "digit_char d \<noteq> CHR ''-''"
    and "digit_char d \<noteq> CHR ''.''"
    by (auto simp add: digit_char_def)
qed

lemma str_nat_no_sep: "CHR ''_'' \<notin> set (str_nat n)" "CHR ''-'' \<notin> set (str_nat n)"
  "CHR ''.'' \<notin> set (str_nat n)"
proof -
  show "CHR ''.'' \<notin> set (str_nat n)"
  proof
    assume "CHR ''.'' \<in> set (str_nat n)"
    from str_nat_chars[OF this] obtain d where "d < 10" "CHR ''.'' = digit_char d" by blast
    with digit_char_not_sep(3)[of d] show False by simp
  qed
  show "CHR ''_'' \<notin> set (str_nat n)"
  proof
    assume "CHR ''_'' \<in> set (str_nat n)"
    from str_nat_chars[OF this] obtain d where "d < 10" "CHR ''_'' = digit_char d" by blast
    with digit_char_not_sep(1)[of d] show False by simp
  qed
  show "CHR ''-'' \<notin> set (str_nat n)"
  proof
    assume "CHR ''-'' \<in> set (str_nat n)"
    from str_nat_chars[OF this] obtain d where "d < 10" "CHR ''-'' = digit_char d" by blast
    with digit_char_not_sep(2)[of d] show False by simp
  qed
qed

lemma str_int_no_underscore: "CHR ''_'' \<notin> set (str_int i)"
proof (cases "i < 0")
  case True
  then have "set (str_int i) = insert (CHR ''-'') (set (str_nat (nat (- i))))"
    by (simp add: str_int_def)
  with str_nat_no_sep(1)[of "nat (- i)"] show ?thesis by simp
next
  case False
  then have "str_int i = str_nat (nat i)" by (simp add: str_int_def)
  with str_nat_no_sep(1)[of "nat i"] show ?thesis by simp
qed

lemma str_nat_hd: "hd (str_nat n) \<noteq> CHR ''-''"
proof
  assume "hd (str_nat n) = CHR ''-''"
  moreover have "hd (str_nat n) \<in> set (str_nat n)"
    using str_nat_nonempty[of n] by (rule hd_in_set)
  ultimately have "CHR ''-'' \<in> set (str_nat n)" by simp
  with str_nat_no_sep(2)[of n] show False by simp
qed

lemma str_int_inj: "str_int i = str_int j \<Longrightarrow> i = j"
proof -
  assume eq: "str_int i = str_int j"
  consider (nn) "i < 0" "j < 0" | (np) "i < 0" "\<not> j < 0" | (pn) "\<not> i < 0" "j < 0"
    | (pp) "\<not> i < 0" "\<not> j < 0" by blast
  then show ?thesis
  proof cases
    case nn
    with eq have "str_nat (nat (- i)) = str_nat (nat (- j))" by (simp add: str_int_def)
    then have "nat (- i) = nat (- j)" by (rule str_nat_inj)
    with nn show ?thesis by simp
  next
    case np
    with eq have "CHR ''-'' # str_nat (nat (- i)) = str_nat (nat j)" by (simp add: str_int_def)
    then have "hd (str_nat (nat j)) = hd (CHR ''-'' # str_nat (nat (- i)))" by (simp only:)
    then have "hd (str_nat (nat j)) = CHR ''-''" by (simp only: list.sel)
    with str_nat_hd[of "nat j"] show ?thesis by simp
  next
    case pn
    with eq have "str_nat (nat i) = CHR ''-'' # str_nat (nat (- j))" by (simp add: str_int_def)
    then have "hd (str_nat (nat i)) = hd (CHR ''-'' # str_nat (nat (- j)))" by (simp only:)
    then have "hd (str_nat (nat i)) = CHR ''-''" by (simp only: list.sel)
    with str_nat_hd[of "nat i"] show ?thesis by simp
  next
    case pp
    with eq have "str_nat (nat i) = str_nat (nat j)" by (simp add: str_int_def)
    then have "nat i = nat j" by (rule str_nat_inj)
    with pp show ?thesis by simp
  qed
qed

lemma str_int_no_dot: "CHR ''.'' \<notin> set (str_int i)"
proof (cases "i < 0")
  case True
  then have "set (str_int i) = insert (CHR ''-'') (set (str_nat (nat (- i))))"
    by (simp add: str_int_def)
  with str_nat_no_sep(3)[of "nat (- i)"] show ?thesis by simp
next
  case False
  then have "str_int i = str_nat (nat i)" by (simp add: str_int_def)
  with str_nat_no_sep(3)[of "nat i"] show ?thesis by simp
qed

lemma str_number_no_underscore: "CHR ''_'' \<notin> set (str_number c)"
  using str_int_no_underscore by (cases c) simp_all

lemma str_number_inj: "str_number c = str_number c' \<Longrightarrow> c = c'"
proof (cases c; cases c')
  fix i j
  assume "c = PyInt i" "c' = PyInt j" "str_number c = str_number c'"
  then show "c = c'" using str_int_inj[of i j] by simp
next
  fix i j
  assume "c = PyFloat i" "c' = PyFloat j" "str_number c = str_number c'"
  then show "c = c'" using str_int_inj[of i j] by simp
next
  fix i j
  assume c: "c = PyInt i" "c' = PyFloat j" and eq: "str_number c = str_number c'"
  then have "str_int i = str_int j @ ''.0''" by simp
  then have "CHR ''.'' \<in> set (str_int i)" by simp
  with str_int_no_dot[of i] show "c = c'" by simp
next
  fix i j
  assume c: "c = PyFloat i" "c' = PyInt j" and eq: "str_number c = str_number c'"
  then have "str_int j = str_int i @ ''.0''" by simp
  then have "CHR ''.'' \<in> set (str_int j)" by simp
  with str_int_no_dot[of j] show "c = c'" by simp
qed

lemma code_prefix:
  "takeWhile (\<lambda>c. c \<noteq> CHR ''_'') (str_number i @ ''_'' @ rest) = str_number i"
proof -
  have "\<And>c. c \<in> set (str_number i) \<Longrightarrow> c \<noteq> CHR ''_''"
    using str_number_no_underscore[of i] by blast
  then have "takeWhile (\<lambda>c. c \<noteq> CHR ''_'') (str_number i @ ''_'' @ rest)
      = str_number i @ takeWhile (\<lambda>c. c \<noteq> CHR ''_'') (''_'' @ rest)"
    by (rule takeWhile_append2)
  then show ?thesis by simp
qed

lemma export_filename_code:
  "takeWhile (\<lambda>c. c \<noteq> CHR ''_'') (export_filename self code) = str_number code"
  by (simp only: export_filename_def Let_def code_prefix)

lemma export_filename_distinct:
  assumes "code \<noteq> code'"
  shows "export_filename self code \<noteq> export_filename self' code'"
proof
  assume "export_filename self code = export_filename self' code'"
  then have "takeWhile (\<lambda>c. c \<noteq> CHR ''_'') (export_filename self code)
      = takeWhile (\<lambda>c. c \<noteq> CHR ''_'') (export_filename self' code')" by (simp only:)
  then have "str_number code = str_number code'" by (simp only: export_filename_code)
  then have "code = code'" by (rule str_number_inj)
  with assms show False by simp
qed

lemma sanitize_length: "length (sanitize s) = length s"
  by (simp add: sanitize_def)

lemma sanitize_nth:
  "i < length s \<Longrightarrow> sanitize s ! i =
     (if isalnum (s ! i) \<or> s ! i = CHR '' '' \<or> s ! i = CHR ''-'' \<or> s ! i = CHR ''_''
      then s ! i else CHR ''_'')"
  by (simp add: sanitize_def)

lemma sanitize_example: "sanitize ''Acte/Chir:urgical'' = ''Acte_Chir_urgical''"
  by (simp add: sanitize_def isalnum_def)

lemma sanitize_kept: "sanitize ''Menu A-1_b.c'' = ''Menu A-1_b_c''"
  by (simp add: sanitize_def isalnum_def)

lemma sanitize_latin1:
  "sanitize [CHR ''t'', CHR 0xE9, CHR ''/'', CHR 0xD7] = [CHR ''t'', CHR 0xE9, CHR ''_'', CHR ''_'']"
  by (simp add: sanitize_def isalnum_def)

lemma str_int_7_8: "str_int 7 = ''7''" "str_int 8 = ''8''"
  by (simp_all add: str_int_def str_nat.simps digit_char_def)

lemma export_filename_label:
  assumes "filter (\<lambda>r. cod_menu r = value_of code) (df_menu self) = r # rs"
  shows "export_filename self code =
           str_number code @ ''_'' @ take 100 (sanitize (libelle r)) @ ''.xlsx''"
  using assms by (simp add: export_filename_def)

lemma export_filename_no_label:
  assumes "filter (\<lambda>r. cod_menu r = value_of code) (df_menu self) = []"
  shows "export_filename self code =
           str_number code @ ''_'' @ ''Menu_'' @ str_number code @ ''.xlsx''"
  using assms by (simp add: export_filename_def)

text \<open>
  C6: for a menu whose code has a row in the menu table, and an analysis with at least
  one record, \<open>export_menu_to_excel\<close> writes the file named by the menu code, an underscore,
  the first 100 characters of the cleaned label of the first such row, and \<open>.xlsx\<close>; it
  writes nothing for an analysis that is \<open>None\<close> or has no record. The cleaned label has
  the length of the label and, at each position, the character of the label when that is
  alphanumeric, a space, a hyphen or an underscore, and an underscore otherwise; so the
  part of the name taken from the label has at most 100 characters. The label
  \<open>Acte/Chir:urgical\<close> becomes \<open>Acte_Chir_urgical\<close>; an accented letter (code point 233) is
  kept and the multiplication sign (code point 215) is replaced. The file names of two
  different menu codes differ, whatever their labels.
\<close>

theorem export_filename_sanitized:
  "(filter (\<lambda>r. cod_menu r = value_of code) (df_menu self) = r # rs \<longrightarrow>
      export_menu_to_excel self code (Some results) =
        (if results = [] then None
         else Some (str_number code @ ''_'' @ take 100 (sanitize (libelle r)) @ ''.xlsx'')))
   \<and> export_menu_to_excel self code None = None
   \<and> length (sanitize s) = length s
   \<and> length (take 100 (sanitize s)) = min 100 (length s)
   \<and> (i < length s \<longrightarrow>
        sanitize s ! i =
          (if isalnum (s ! i) \<or> s ! i = CHR '' '' \<or> s ! i = CHR ''-'' \<or> s ! i = CHR ''_''
           then s ! i else CHR ''_''))
   \<and> sanitize ''Acte/Chir:urgical'' = ''Acte_Chir_urgical''
   \<and> sanitize ''Menu A-1_b.c'' = ''Menu A-1_b_c''
   \<and> sanitize [CHR ''t'', CHR 0xE9, CHR ''/'', CHR 0xD7] = [CHR ''t'', CHR 0xE9, CHR ''_'', CHR ''_'']
   \<and> (code \<noteq> code' \<longrightarrow> export_filename self code \<noteq> export_filename self' code')
   \<and> (code \<noteq> code' \<and> results \<noteq> [] \<and> results' \<noteq> [] \<longrightarrow>
        export_menu_to_excel self code (Some results)
          \<noteq> export_menu_to_excel self' code' (Some results'))
   \<and> str_number (PyInt k) = str_int k
   \<and> str_number (PyFloat k) = str_int k @ ''.0''"
proof -
  have name: "export_menu_to_excel self code (Some results) =
        (if results = [] then None
         else Some (str_number code @ ''_'' @ take 100 (sanitize (libelle r)) @ ''.xlsx''))"
    if "filter (\<lambda>r. cod_menu r = value_of code) (df_menu self) = r # rs"
    using export_filename_label[OF that] by (simp add: export_menu_to_excel_def)
  have none: "export_menu_to_excel self code None = None"
    by (simp add: export_menu_to_excel_def)
  have len: "length (take 100 (sanitize s)) = min 100 (length s)"
    by (simp add: sanitize_length min.commute)
  have nth: "sanitize s ! i =
          (if isalnum (s ! i) \<or> s ! i = CHR '' '' \<or> s ! i = CHR ''-'' \<or> s ! i = CHR ''_''
           then s ! i else CHR ''_'')"
    if "i < length s"
    using that by (rule sanitize_nth)
  have names: "export_filename self code \<noteq> export_filename self' code'" if "code \<noteq> code'"
    using that by (rule export_filename_distinct)
  have files: "export_menu_to_excel self code (Some results)
          \<noteq> export_menu_to_excel self' code' (Some results')"
    if "code \<noteq> code' \<and> results \<noteq> [] \<and> results' \<noteq> []"
    using that export_filename_distinct[of code code' self self']
    by (simp add: export_menu_to_excel_def)
  have ints: "str_number (PyInt k) = str_int k" by simp
  have floats: "str_number (PyFloat k) = str_int k @ ''.0''" by simp
  from name none sanitize_length[of s] len nth sanitize_example sanitize_kept sanitize_latin1
    names files ints floats
  show ?thesis by blast
qed

theorem export_filename_sanitized_witness:
  "filter (\<lambda>r. cod_menu r = value_of (PyInt 7)) (df_menu label_analyzer) =
     [\<lparr>cod_menu = 7, libelle = ''Acte/Chir:urgical'', cod_pere = Some 0\<rparr>]
   \<and> filter (\<lambda>r. cod_menu r = value_of (PyInt 8)) (df_menu label_analyzer) =
     [\<lparr>cod_menu = 8, libelle = ''Acte_Chir_urgical'', cod_pere = Some 0\<rparr>]
   \<and> export_menu_to_excel label_analyzer (PyInt 7) (Some [sample_evolution]) =
       Some ''7_Acte_Chir_urgical.xlsx''
   \<and> export_menu_to_excel label_analyzer (PyInt 8) (Some [sample_evolution]) =
       Some ''8_Acte_Chir_urgical.xlsx''
   \<and> take 100 (sanitize ''Acte/Chir:urgical'') = take 100 (sanitize ''Acte_Chir_urgical'')
   \<and> PyInt 7 \<noteq> PyInt 8
   \<and> export_filename label_analyzer (PyInt 7) \<noteq> export_filename label_analyzer (PyInt 8)
   \<and> (4::nat) < length ''Acte/Chir:urgical''
   \<and> sanitize ''Acte/Chir:urgical'' ! 4 = CHR ''_''"
proof -
  let ?r7 = "\<lparr>cod_menu = 7, libelle = ''Acte/Chir:urgical'', cod_pere = Some 0\<rparr>"
  let ?r8 = "\<lparr>cod_menu = 8, libelle = ''Acte_Chir_urgical'', cod_pere = Some 0\<rparr>"
  have f7: "filter (\<lambda>r. cod_menu r = value_of (PyInt 7)) (df_menu label_analyzer) = ?r7 # []"
    by (simp add: label_analyzer_def)
  have f8: "filter (\<lambda>r. cod_menu r = value_of (PyInt 8)) (df_menu label_analyzer) = ?r8 # []"
    by (simp add: label_analyzer_def)
  note i7 = export_filename_sanitized[where code="PyInt 7" and self=label_analyzer and r="?r7"
      and rs="[]" and results="[sample_evolution]" and code'="PyInt 8" and self'=label_analyzer
      and s="''Acte/Chir:urgical''" and i=4 and k=7]
  note i8 = export_filename_sanitized[where code="PyInt 8" and self=label_analyzer and r="?r8"
      and rs="[]" and results="[sample_evolution]" and k=8]
  have s7: "sanitize ''Acte/Chir:urgical'' = ''Acte_Chir_urgical''" using i7 by blast
  have s8: "sanitize ''Acte_Chir_urgical'' = ''Acte_Chir_urgical''"
    by (simp add: sanitize_def isalnum_def)
  from i7 f7 have "export_menu_to_excel label_analyzer (PyInt 7) (Some [sample_evolution]) =
      Some (str_number (PyInt 7) @ ''_'' @ take 100 (sanitize (libelle ?r7)) @ ''.xlsx'')"
    by simp
  then have a: "export_menu_to_excel label_analyzer (PyInt 7) (Some [sample_evolution]) =
       Some ''7_Acte_Chir_urgical.xlsx''"
    by (simp add: s7 str_int_7_8)
  from i8 f8 have "export_menu_to_excel label_analyzer (PyInt 8) (Some [sample_evolution]) =
      Some (str_number (PyInt 8) @ ''_'' @ take 100 (sanitize (libelle ?r8)) @ ''.xlsx'')"
    by simp
  then have b: "export_menu_to_excel label_analyzer (PyInt 8) (Some [sample_evolution]) =
       Some ''8_Acte_Chir_urgical.xlsx''"
    by (simp add: s8 str_int_7_8)
  have c: "take 100 (sanitize ''Acte/Chir:urgical'') = take 100 (sanitize ''Acte_Chir_urgical'')"
    by (simp only: s7 s8)
  have d: "PyInt 7 \<noteq> PyInt 8" by simp
  with i7 have e: "export_filename label_analyzer (PyInt 7) \<noteq> export_filename label_analyzer (PyInt 8)"
    by blast
  have f: "(4::nat) < length ''Acte/Chir:urgical''" by simp
  with i7 have "sanitize ''Acte/Chir:urgical'' ! 4 =
          (if isalnum (''Acte/Chir:urgical'' ! 4) \<or> ''Acte/Chir:urgical'' ! 4 = CHR '' ''
              \<or> ''Acte/Chir:urgical'' ! 4 = CHR ''-'' \<or> ''Acte/Chir:urgical'' ! 4 = CHR ''_''
           then ''Acte/Chir:urgical'' ! 4 else CHR ''_'')"
    by blast
  then have g: "sanitize ''Acte/Chir:urgical'' ! 4 = CHR ''_''"
    by (simp add: isalnum_def)
  from f7 f8 show ?thesis by (intro conjI a b c d e f g) simp_all
qed

section \<open>Properties of reading a DBF table\<close>

lemma update_keys:
  "map fst (AList.update k v al) = (if k \<in> set (map fst al) then map fst al else map fst al @ [k])"
  by (induction al) auto

lemma fold_update_keys:
  "map fst (fold (\<lambda>(k, v). AList.update k v) items acc) =
     fold (\<lambda>k ks. if k \<in> set ks then ks else ks @ [k]) (map fst items) (map fst acc)"
proof (induction items arbitrary: acc)
  case Nil
  show ?case by simp
next
  case (Cons kv items)
  obtain k v where kv: "kv = (k, v)" by (cases kv)
  show ?case unfolding kv by (simp add: Cons.IH update_keys)
qed

lemma fold_keys_set:
  "set (fold (\<lambda>k ks. if k \<in> set ks then ks else ks @ [k]) names acc) = set acc \<union> set names"
  by (induction names arbitrary: acc) auto

lemma fold_keys_distinct:
  "distinct acc \<Longrightarrow> distinct (fold (\<lambda>k ks. if k \<in> set ks then ks else ks @ [k]) names acc)"
  by (induction names arbitrary: acc) auto

lemma fold_keys_new:
  "distinct (acc @ names) \<Longrightarrow>
     fold (\<lambda>k ks. if k \<in> set ks then ks else ks @ [k]) names acc = acc @ names"
  by (induction names arbitrary: acc) auto

lemma record_keys:
  "map fst (ordered_dict (map (\<lambda>i. (names ! i, r i)) [0..<length names])) = dict_keys names"
proof -
  have "map fst (map (\<lambda>i. (names ! i, r i)) [0..<length names]) = map ((!) names) [0..<length names]"
    by simp
  also have "\<dots> = names" by (rule map_nth)
  finally show ?thesis by (simp add: ordered_dict_def fold_update_keys dict_keys_def)
qed

lemma dict_keys_set: "set (dict_keys names) = set names"
  by (simp add: dict_keys_def fold_keys_set)

lemma dict_keys_distinct: "distinct (dict_keys names)"
  by (simp add: dict_keys_def fold_keys_distinct)

lemma dict_keys_id: "distinct names \<Longrightarrow> dict_keys names = names"
  using fold_keys_new[of "[]" names] by (simp add: dict_keys_def)

lemma dict_keys_Nil: "dict_keys names = [] \<longleftrightarrow> names = []"
  using dict_keys_set[of names] by (metis set_empty)

lemma unique_covered:
  "distinct ks \<Longrightarrow> set xs \<subseteq> set ks \<Longrightarrow> unique (ks @ xs) = ks"
proof (induction ks arbitrary: xs)
  case Nil
  then show ?case by simp
next
  case (Cons k ks)
  from Cons.prems have "filter (\<lambda>y. y \<noteq> k) ks = ks" by (auto simp add: filter_id_conv)
  moreover from Cons.prems have "set (filter (\<lambda>y. y \<noteq> k) xs) \<subseteq> set ks" by auto
  ultimately show ?case using Cons.IH[of "filter (\<lambda>y. y \<noteq> k) xs"] Cons.prems by simp
qed

lemma unique_repeated:
  assumes "distinct ks" and "n > 0"
  shows "unique (concat (replicate n ks)) = ks"
proof -
  from assms(2) obtain m where n: "n = Suc m" by (cases n) auto
  have "set (concat (replicate m ks)) \<subseteq> set ks" by auto
  with unique_covered[OF assms(1)] show ?thesis unfolding n by simp
qed

lemma iter_dbf_keys:
  "map (map fst) (iter_dbf dbf) = replicate (length (dbf_records dbf)) (dict_keys (dbf_fields dbf))"
  by (simp add: iter_dbf_def record_keys comp_def map_replicate_const)

lemma data_frame_columns:
  "frame_columns (data_frame (iter_dbf dbf)) =
     (if dbf_records dbf = [] then [] else dict_keys (dbf_fields dbf))"
proof (cases "dbf_records dbf = []")
  case True
  then show ?thesis by (simp add: data_frame_def iter_dbf_def)
next
  case False
  then have "length (dbf_records dbf) > 0" by simp
  from unique_repeated[OF dict_keys_distinct this, of "dbf_fields dbf"] False
  show ?thesis by (simp add: data_frame_def Let_def iter_dbf_keys)
qed

lemma data_frame_rows:
  "length (frame_rows (data_frame (iter_dbf dbf))) = length (dbf_records dbf)"
  by (simp add: data_frame_def Let_def iter_dbf_def)

lemma frame_empty_iff:
  "frame_empty (data_frame (iter_dbf dbf)) \<longleftrightarrow> dbf_records dbf = [] \<or> dbf_fields dbf = []"
proof -
  have "frame_rows (data_frame (iter_dbf dbf)) = [] \<longleftrightarrow> dbf_records dbf = []"
    using data_frame_rows[of dbf] by (metis length_0_conv)
  then show ?thesis by (auto simp add: frame_empty_def data_frame_columns dict_keys_Nil)
qed

lemma convert_columns:
  "frame_columns (convert_dbf_to_df dbf) =
     (if dbf_records dbf = [] then map str_lower (dbf_fields dbf)
      else map str_lower (dict_keys (dbf_fields dbf)))"
  by (auto simp add: convert_dbf_to_df_def Let_def frame_empty_iff data_frame_columns
      dict_keys_Nil)

lemma convert_rows:
  "length (frame_rows (convert_dbf_to_df dbf)) =
     (if dbf_fields dbf = [] then 0 else length (dbf_records dbf))"
  by (auto simp add: convert_dbf_to_df_def Let_def frame_empty_iff data_frame_rows)

lemma char_of_eqI: "of_char c = (n::nat) \<Longrightarrow> char_of n = c"
  by auto

lemma lower_letters:
  "char_of (97::nat) = CHR ''a''" "char_of (98::nat) = CHR ''b''" "char_of (99::nat) = CHR ''c''"
  "char_of (100::nat) = CHR ''d''" "char_of (101::nat) = CHR ''e''" "char_of (103::nat) = CHR ''g''"
  "char_of (105::nat) = CHR ''i''" "char_of (108::nat) = CHR ''l''" "char_of (111::nat) = CHR ''o''"
  "char_of (112::nat) = CHR ''p''" "char_of (114::nat) = CHR ''r''" "char_of (115::nat) = CHR ''s''"
  "char_of (117::nat) = CHR ''u''"
  by (rule char_of_eqI, simp)+

lemma str_lower_ascii:
  "str_lower ''AAP_COD'' = ''aap_cod''" "str_lower ''GRILLE_COD'' = ''grille_cod''"
  "str_lower ''PU_BASE'' = ''pu_base''"
  by (simp_all add: str_lower_def lower_char_def lower_letters)

lemma convert_empty_pu_base:
  "convert_dbf_to_df empty_pu_base =
     \<lparr>frame_columns = [''aap_cod'', ''grille_cod'', ''pu_base''], frame_rows = []\<rparr>"
  by (simp add: convert_dbf_to_df_def data_frame_def iter_dbf_def frame_empty_def
      empty_pu_base_def Let_def str_lower_ascii)

lemma convert_small_pu_base:
  "convert_dbf_to_df small_pu_base =
     \<lparr>frame_columns = [''aap_cod'', ''grille_cod'', ''pu_base''],
      frame_rows = [[Some 100, Some 3, Some 10], [Some 100, Some 4, Some 12]]\<rparr>"
  by (simp add: convert_dbf_to_df_def data_frame_def iter_dbf_def ordered_dict_def
      frame_empty_def small_pu_base_def Let_def str_lower_ascii)

text \<open>
  C7: for a DBF file without records \<open>convert_dbf_to_df\<close> returns a frame without rows whose
  columns are the field names in lower case, in field order. For every DBF file the set
  of the column names is the set of the lower-cased field names; the columns are the
  lower-cased field names in field order when no field name occurs twice, and a file
  with at least one field gives one row per record. The fields \<open>AAP_COD\<close>, \<open>GRILLE_COD\<close>
  and \<open>PU_BASE\<close> give the columns \<open>aap_cod\<close>, \<open>grille_cod\<close> and \<open>pu_base\<close>, without records
  and with two.
\<close>

theorem convert_dbf_to_df_columns:
  "(dbf_records dbf = [] \<longrightarrow>
      frame_rows (convert_dbf_to_df dbf) = []
      \<and> frame_columns (convert_dbf_to_df dbf) = map str_lower (dbf_fields dbf))
   \<and> set (frame_columns (convert_dbf_to_df dbf)) = str_lower ` set (dbf_fields dbf)
   \<and> (distinct (dbf_fields dbf) \<longrightarrow>
        frame_columns (convert_dbf_to_df dbf) = map str_lower (dbf_fields dbf))
   \<and> (dbf_fields dbf \<noteq> [] \<longrightarrow>
        length (frame_rows (convert_dbf_to_df dbf)) = length (dbf_records dbf))
   \<and> convert_dbf_to_df empty_pu_base =
       \<lparr>frame_columns = [''aap_cod'', ''grille_cod'', ''pu_base''], frame_rows = []\<rparr>
   \<and> convert_dbf_to_df small_pu_base =
       \<lparr>frame_columns = [''aap_cod'', ''grille_cod'', ''pu_base''],
        frame_rows = [[Some 100, Some 3, Some 10], [Some 100, Some 4, Some 12]]\<rparr>"
proof -
  have none: "frame_rows (convert_dbf_to_df dbf) = []
      \<and> frame_columns (convert_dbf_to_df dbf) = map str_lower (dbf_fields dbf)"
    if "dbf_records dbf = []"
  proof -
    from that convert_rows[of dbf] have "length (frame_rows (convert_dbf_to_df dbf)) = 0"
      by simp
    then have "frame_rows (convert_dbf_to_df dbf) = []" by simp
    with that show ?thesis by (simp add: convert_columns)
  qed
  have sets: "set (frame_columns (convert_dbf_to_df dbf)) = str_lower ` set (dbf_fields dbf)"
    by (simp add: convert_columns dict_keys_set)
  have lists: "frame_columns (convert_dbf_to_df dbf) = map str_lower (dbf_fields dbf)"
    if "distinct (dbf_fields dbf)"
    using that by (simp add: convert_columns dict_keys_id)
  have rows: "length (frame_rows (convert_dbf_to_df dbf)) = length (dbf_records dbf)"
    if "dbf_fields dbf \<noteq> []"
    using that by (simp add: convert_rows)
  from none sets lists rows convert_empty_pu_base convert_small_pu_base show ?thesis by blast
qed

theorem convert_dbf_to_df_columns_witness:
  "dbf_records empty_pu_base = []
   \<and> convert_dbf_to_df empty_pu_base =
       \<lparr>frame_columns = [''aap_cod'', ''grille_cod'', ''pu_base''], frame_rows = []\<rparr>
   \<and> distinct (dbf_fields small_pu_base)
   \<and> dbf_fields small_pu_base \<noteq> []
   \<and> frame_columns (convert_dbf_to_df small_pu_base) = [''aap_cod'', ''grille_cod'', ''pu_base'']
   \<and> length (frame_rows (convert_dbf_to_df small_pu_base)) = 2
   \<and> convert_dbf_to_df repeated_field_table =
       \<lparr>frame_columns = [''a''], frame_rows = [[Some 2]]\<rparr>
   \<and> set (frame_columns (convert_dbf_to_df repeated_field_table)) =
       str_lower ` set (dbf_fields repeated_field_table)"
proof -
  note e = convert_dbf_to_df_columns[of empty_pu_base]
  note s = convert_dbf_to_df_columns[of small_pu_base]
  have a: "dbf_records empty_pu_base = []" by (simp add: empty_pu_base_def)
  with e have "frame_rows (convert_dbf_to_df empty_pu_base) = []"
    and "frame_columns (convert_dbf_to_df empty_pu_base) = map str_lower (dbf_fields empty_pu_base)"
    by blast+
  then have b: "convert_dbf_to_df empty_pu_base =
       \<lparr>frame_columns = [''aap_cod'', ''grille_cod'', ''pu_base''], frame_rows = []\<rparr>"
    by (cases "convert_dbf_to_df empty_pu_base") (simp add: empty_pu_base_def str_lower_ascii)
  have c: "distinct (dbf_fields small_pu_base)" by (simp add: small_pu_base_def)
  have d: "dbf_fields small_pu_base \<noteq> []" by (simp add: small_pu_base_def)
  from s c have "frame_columns (convert_dbf_to_df small_pu_base)
      = map str_lower (dbf_fields small_pu_base)" by blast
  then have f: "frame_columns (convert_dbf_to_df small_pu_base)
      = [''aap_cod'', ''grille_cod'', ''pu_base'']"
    by (simp add: small_pu_base_def str_lower_ascii)
  from s d have "length (frame_rows (convert_dbf_to_df small_pu_base))
      = length (dbf_records small_pu_base)" by blast
  then have g: "length (frame_rows (convert_dbf_to_df small_pu_base)) = 2"
    by (simp add: small_pu_base_def)
  have h: "convert_dbf_to_df repeated_field_table =
       \<lparr>frame_columns = [''a''], frame_rows = [[Some 2]]\<rparr>"
    by (simp add: convert_dbf_to_df_def data_frame_def iter_dbf_def ordered_dict_def
        frame_empty_def repeated_field_table_def Let_def str_lower_def lower_char_def
        lower_letters)
  have i: "set (frame_columns (convert_dbf_to_df repeated_field_table)) =
       str_lower ` set (dbf_fields repeated_field_table)"
    using convert_dbf_to_df_columns[of repeated_field_table] by blast
  show ?thesis by (intro conjI a b c d f g h i)
qed

section \<open>Properties of the analysis of the price table\<close>

lemma then_run_raised: "then_run (Some e, s) f = (Some e, s)"
  by (simp add: then_run_def)

lemma then_run_returned: "then_run (None, s) f = f s"
  by (simp add: then_run_def)

lemma load_data_missing:
  assumes "\<not> path_exists w (pu_base_path self)"
  shows "load_data w self =
           (Some (FileNotFoundError (''Fichier '' @ pu_base_path self @ '' introuvable'')), self)"
  using assms by (simp add: load_data_def)

lemma run_missing:
  assumes "\<not> path_exists w (pu_base_path self)"
  shows "run_full_analysis w self =
           (Some (FileNotFoundError (''Fichier '' @ pu_base_path self @ '' introuvable'')), self)"
  unfolding run_full_analysis_def load_data_missing[OF assms] by (simp only: then_run_raised)

lemma str_int_20: "str_int 20 = ''20''"
  by (simp add: str_int_def str_nat.simps digit_char_def)

lemma lower_letters_more:
  "char_of (102::nat) = CHR ''f''" "char_of (109::nat) = CHR ''m''" "char_of (116::nat) = CHR ''t''"
  by (rule char_of_eqI, simp)+

lemma full_pu_base_frame:
  "frame_columns (convert_dbf_to_df full_pu_base) =
     [''aap_cod'', ''grille_cod'', ''pu_base'', ''apdt_modif'']"
proof -
  have "distinct (dbf_fields full_pu_base)" by (simp add: full_pu_base_def)
  then have "frame_columns (convert_dbf_to_df full_pu_base) = map str_lower (dbf_fields full_pu_base)"
    by (simp add: convert_columns dict_keys_id)
  then show ?thesis
    by (simp add: full_pu_base_def str_lower_def lower_char_def lower_letters lower_letters_more)
qed

lemma run_price_table_only:
  "fst (run_full_analysis price_table_only (init ''data'')) = None"
  "output_files (snd (run_full_analysis price_table_only (init ''data''))) =
     [''analyse_par_grille.csv'', ''top_20_actes_plus_chers.csv'', ''analyse_par_acte.csv'',
      ''top_variations_prix.csv'', ''analyse_temporelle.csv'', ''pu_base_complete.csv'']"
proof -
  let ?s = "(init ''data'' :: int pu_analyzer)\<lparr>pu_df := Some (convert_dbf_to_df full_pu_base)\<rparr>"
  have load: "load_data price_table_only (init ''data'') = (None, ?s)"
    by (simp add: load_data_def price_table_only_def init_def joinpath_def)
  have r: "reads e groups (s\<lparr>pu_df := Some (convert_dbf_to_df full_pu_base)\<rparr>) =
      (case filter (\<lambda>g. g \<noteq> [])
              (map (filter (\<lambda>c. c \<notin> set [''aap_cod'', ''grille_cod'', ''pu_base'', ''apdt_modif'']))
                 groups) of
         [] \<Rightarrow> None | missing # _ \<Rightarrow> Some (KeyError missing))" for e groups and s :: "int pu_analyzer"
    by (simp add: reads_def full_pu_base_frame)
  have w: "to_csv name (s\<lparr>pu_df := d\<rparr>) = (to_csv name s)\<lparr>pu_df := d\<rparr>"
    for name d and s :: "int pu_analyzer"
    by (simp add: to_csv_def)
  have run: "run_full_analysis price_table_only (init ''data'') =
      (None, (to_csv ''pu_base_complete.csv'' (to_csv ''analyse_temporelle.csv''
         (to_csv ''top_variations_prix.csv'' (to_csv ''analyse_par_acte.csv''
         (to_csv ''top_20_actes_plus_chers.csv'' (to_csv ''analyse_par_grille.csv''
           (init ''data'')))))))\<lparr>pu_df := Some (convert_dbf_to_df full_pu_base)\<rparr>)"
    unfolding run_full_analysis_def load
    by (simp add: then_run_returned print_statistics_def analyze_by_grille_def
        top_actes_by_price_def analyze_by_acte_def analyze_temporal_def export_full_data_def
        r w str_int_20)
  show "fst (run_full_analysis price_table_only (init ''data'')) = None"
    unfolding run by simp
  show "output_files (snd (run_full_analysis price_table_only (init ''data''))) =
     [''analyse_par_grille.csv'', ''top_20_actes_plus_chers.csv'', ''analyse_par_acte.csv'',
      ''top_variations_prix.csv'', ''analyse_temporelle.csv'', ''pu_base_complete.csv'']"
    unfolding run by (simp add: to_csv_def init_def)
qed

text \<open>
  C8: when no file exists at \<open>pu_base_path\<close>, that is at \<open>R_PU_BASE.dbf\<close> in the data
  directory, \<open>load_data\<close> raises \<open>FileNotFoundError\<close> with the message \<open>Fichier\<close>, the path,
  \<open>introuvable\<close> and leaves the analyzer as it was; \<open>run_full_analysis\<close> then ends with that
  exception and in the state it started from, so it has written no report file: run on a
  new analyzer, none at all. On a file system whose only file is a price table with the
  columns the steps read, the modelled run returns and has written the six report files.
\<close>

theorem load_data_missing_file:
  "(\<not> path_exists w (pu_base_path self) \<longrightarrow>
      load_data w self =
        (Some (FileNotFoundError (''Fichier '' @ pu_base_path self @ '' introuvable'')), self)
      \<and> run_full_analysis w self =
        (Some (FileNotFoundError (''Fichier '' @ pu_base_path self @ '' introuvable'')), self)
      \<and> output_files (snd (run_full_analysis w self)) = output_files self)
   \<and> pu_base_path (init data_path) = joinpath data_path ''R_PU_BASE.dbf''
   \<and> joinpath ''data'' ''R_PU_BASE.dbf'' = ''data/R_PU_BASE.dbf''
   \<and> output_files (init data_path) = []
   \<and> (\<not> path_exists w (joinpath data_path ''R_PU_BASE.dbf'') \<longrightarrow>
        fst (run_full_analysis w (init data_path)) =
          Some (FileNotFoundError
                  (''Fichier '' @ joinpath data_path ''R_PU_BASE.dbf'' @ '' introuvable''))
        \<and> output_files (snd (run_full_analysis w (init data_path))) = [])
   \<and> fst (run_full_analysis price_table_only (init ''data'')) = None
   \<and> output_files (snd (run_full_analysis price_table_only (init ''data''))) =
       [''analyse_par_grille.csv'', ''top_20_actes_plus_chers.csv'', ''analyse_par_acte.csv'',
        ''top_variations_prix.csv'', ''analyse_temporelle.csv'', ''pu_base_complete.csv'']"
proof -
  have missing: "load_data w self =
        (Some (FileNotFoundError (''Fichier '' @ pu_base_path self @ '' introuvable'')), self)
      \<and> run_full_analysis w self =
        (Some (FileNotFoundError (''Fichier '' @ pu_base_path self @ '' introuvable'')), self)
      \<and> output_files (snd (run_full_analysis w self)) = output_files self"
    if "\<not> path_exists w (pu_base_path self)" for self :: "'a pu_analyzer"
    using load_data_missing[OF that] run_missing[OF that] by simp
  have path: "pu_base_path (init data_path) = joinpath data_path ''R_PU_BASE.dbf''"
    by (simp add: init_def)
  have none: "output_files (init data_path) = []"
    by (simp add: init_def)
  have fresh: "fst (run_full_analysis w (init data_path)) =
          Some (FileNotFoundError
                  (''Fichier '' @ joinpath data_path ''R_PU_BASE.dbf'' @ '' introuvable''))
        \<and> output_files (snd (run_full_analysis w (init data_path))) = []"
    if "\<not> path_exists w (joinpath data_path ''R_PU_BASE.dbf'')"
  proof -
    from that have "\<not> path_exists w (pu_base_path (init data_path :: 'a pu_analyzer))"
      by (simp add: init_def)
    from missing[OF this] show ?thesis by (simp add: init_def)
  qed
  have joined: "joinpath ''data'' ''R_PU_BASE.dbf'' = ''data/R_PU_BASE.dbf''"
    by (simp add: joinpath_def)
  from missing[of self] path joined none fresh run_price_table_only show ?thesis by blast
qed

theorem load_data_missing_file_witness:
  "\<not> path_exists no_files (pu_base_path (init ''data'' :: int pu_analyzer))
   \<and> pu_base_path (init ''data'' :: int pu_analyzer) = ''data/R_PU_BASE.dbf''
   \<and> load_data no_files (init ''data'') =
       (Some (FileNotFoundError ''Fichier data/R_PU_BASE.dbf introuvable''), init ''data'')
   \<and> run_full_analysis no_files (init ''data'') =
       (Some (FileNotFoundError ''Fichier data/R_PU_BASE.dbf introuvable''), init ''data'')
   \<and> output_files (snd (run_full_analysis no_files (init ''data''))) = []"
proof -
  note inst = load_data_missing_file[where w=no_files and self="init ''data'' :: int pu_analyzer"
      and data_path="''data''"]
  have a: "\<not> path_exists no_files (pu_base_path (init ''data'' :: int pu_analyzer))"
    by (simp add: no_files_def)
  have b: "pu_base_path (init ''data'' :: int pu_analyzer) = ''data/R_PU_BASE.dbf''"
    by (simp add: init_def joinpath_def)
  from inst a have c: "load_data no_files (init ''data'') =
        (Some (FileNotFoundError
           (''Fichier '' @ pu_base_path (init ''data'' :: int pu_analyzer) @ '' introuvable'')),
         init ''data'')"
    and d: "run_full_analysis no_files (init ''data'') =
        (Some (FileNotFoundError
           (''Fichier '' @ pu_base_path (init ''data'' :: int pu_analyzer) @ '' introuvable'')),
         init ''data'')"
    and e: "output_files (snd (run_full_analysis no_files (init ''data'' :: int pu_analyzer)))
        = output_files (init ''data'' :: int pu_analyzer)"
    by blast+
  from c b have c': "load_data no_files (init ''data'') =
       (Some (FileNotFoundError ''Fichier data/R_PU_BASE.dbf introuvable''), init ''data'')"
    by simp
  from d b have d': "run_full_analysis no_files (init ''data'') =
       (Some (FileNotFoundError ''Fichier data/R_PU_BASE.dbf introuvable''), init ''data'')"
    by simp
  from e have e': "output_files (snd (run_full_analysis no_files (init ''data''))) = []"
    by (simp add: init_def)
  show ?thesis by (intro conjI a b c' d' e')
qed

end
